theory Spec2Isabelle
  imports Complex_Main "HOL-Library.Log_Nat"
begin

section \<open>Python values used by main.py\<close>

text \<open>
  Strings are \<open>string\<close> (lists of ASCII characters); every character class the program
  tests (hex digits, \<open>#\<close>, newline) is ASCII.  Python \<open>int\<close> is \<open>int\<close>.  A Python
  \<open>float\<close> is an IEEE binary64 number; a finite one is a rational, so finite floats are
  modelled as \<open>rat\<close> and every floating-point operation is the exact operation followed by
  rounding to the nearest binary64 value, ties to even (\<open>fl\<close> below).  NaN, the infinities
  and overflow are outside the model: no value handled here exceeds 255 in magnitude.
\<close>

datatype py_error =
    FileNotFoundError
  | AttributeError
  | TypeError
  | IndexError
  | ValueError
  | External nat

subsection \<open>Binary64 rounding\<close>

definition pow2 :: "int \<Rightarrow> rat" where
  "pow2 e = (if 0 \<le> e then 2 ^ nat e else 1 / 2 ^ nat (- e))"

text \<open>\<open>expo q\<close> is the binary exponent of a non-zero \<open>q\<close>: \<open>2 ^ expo q \<le> |q| < 2 ^ (expo q + 1)\<close>.\<close>

definition expo :: "rat \<Rightarrow> int" where
  "expo q =
     (let (a, b) = quotient_of \<bar>q\<bar>;
          d = bitlen a - bitlen b
      in if pow2 d \<le> \<bar>q\<bar> then d else d - 1)"

text \<open>Rounding to the nearest integer, ties to the even one.\<close>

definition round_half_even :: "rat \<Rightarrow> int" where
  "round_half_even q =
     (let f = \<lfloor>q\<rfloor>; r = q - of_int f
      in if r < 1 / 2 then f
         else if 1 / 2 < r then f + 1
         else if even f then f else f + 1)"

text \<open>
  The unit in the last place of a binary64 number with exponent \<open>e\<close> is \<open>2 ^ (e - 52)\<close>
  (53 significant bits); below the smallest normal exponent \<open>-1022\<close> the spacing stays
  that of the subnormal numbers.
\<close>

definition fl :: "rat \<Rightarrow> rat" where
  "fl q =
     (if q = 0 then 0
      else let u = pow2 (max (expo q) (- 1022) - 52)
           in of_int (round_half_even (q / u)) * u)"

definition fdiv :: "rat \<Rightarrow> rat \<Rightarrow> rat" where "fdiv a b = fl (a / b)"
definition fsub :: "rat \<Rightarrow> rat \<Rightarrow> rat" where "fsub a b = fl (a - b)"
definition fmul :: "rat \<Rightarrow> rat \<Rightarrow> rat" where "fmul a b = fl (a * b)"
definition fadd :: "rat \<Rightarrow> rat \<Rightarrow> rat" where "fadd a b = fl (a + b)"

text \<open>Python \<open>int(x)\<close> on a float, and the C cast to an integer: truncation toward zero.\<close>

definition trunc :: "rat \<Rightarrow> int" where
  "trunc q = (if 0 \<le> q then \<lfloor>q\<rfloor> else \<lceil>q\<rceil>)"

subsection \<open>Parsing hexadecimal digits\<close>

definition is_hex_char :: "char \<Rightarrow> bool" where
  "is_hex_char c \<longleftrightarrow>
     (let n = of_char c :: nat
      in (65 \<le> n \<and> n \<le> 70) \<or> (97 \<le> n \<and> n \<le> 102) \<or> (48 \<le> n \<and> n \<le> 57))"

definition hex_val :: "char \<Rightarrow> int" where
  "hex_val c =
     (let n = of_char c :: nat
      in if 48 \<le> n \<and> n \<le> 57 then int n - 48
         else if 65 \<le> n \<and> n \<le> 70 then int n - 55
         else int n - 87)"

text \<open>The ASCII whitespace that \<open>int\<close> strips: tab, LF, VT, FF, CR and space.\<close>

definition is_space :: "char \<Rightarrow> bool" where
  "is_space c \<longleftrightarrow> (let n = of_char c :: nat in (9 \<le> n \<and> n \<le> 13) \<or> n = 32)"

text \<open>
  \<open>int(s, 16)\<close> for the slices \<open>hex_color[i:i + 2]\<close>, which have at most two characters:
  surrounding whitespace is stripped, one sign is allowed, and what remains must be hex
  digits; anything else raises \<open>ValueError\<close>.  (With two characters there is no room for
  digits after a \<open>0x\<close> prefix or around an underscore, so both are errors.)
\<close>

fun py_int16 :: "string \<Rightarrow> py_error + int" where
  "py_int16 [c] = (if is_hex_char c then Inr (hex_val c) else Inl ValueError)"
| "py_int16 [c, d] =
     (if is_hex_char c \<and> is_hex_char d then Inr (16 * hex_val c + hex_val d)
      else if is_hex_char c \<and> is_space d then Inr (hex_val c)
      else if is_space c \<and> is_hex_char d then Inr (hex_val d)
      else if c = CHR ''+'' \<and> is_hex_char d then Inr (hex_val d)
      else if c = CHR ''-'' \<and> is_hex_char d then Inr (- hex_val d)
      else Inl ValueError)"
| "py_int16 s = Inl ValueError"

section \<open>Utility functions\<close>

type_synonym rgba = "int \<times> int \<times> int \<times> int"

text \<open>Python slice \<open>s[i:i + 2]\<close>.\<close>

definition slice2 :: "string \<Rightarrow> nat \<Rightarrow> string" where
  "slice2 s i = take 2 (drop i s)"

text \<open>
  \<open>hex_to_rgba\<close>: strip every leading \<open>#\<close>, parse the three two-character slices, and
  append \<open>int(255 * opacity)\<close>, a binary64 product truncated.  The argument is
  \<open>None\<close> when the style leaves the colour out; \<open>None.lstrip\<close> raises \<open>AttributeError\<close>.
\<close>

definition hex_to_rgba :: "string option \<Rightarrow> rat \<Rightarrow> py_error + rgba" where
  "hex_to_rgba hex_color opacity =
     (case hex_color of
        None \<Rightarrow> Inl AttributeError
      | Some hc \<Rightarrow>
          (let s = dropWhile (\<lambda>c. c = CHR ''#'') hc
           in case py_int16 (slice2 s 0) of
                Inl e \<Rightarrow> Inl e
              | Inr r \<Rightarrow>
                  (case py_int16 (slice2 s 2) of
                     Inl e \<Rightarrow> Inl e
                   | Inr g \<Rightarrow>
                       (case py_int16 (slice2 s 4) of
                          Inl e \<Rightarrow> Inl e
                        | Inr b \<Rightarrow> Inr (r, g, b, trunc (fmul 255 opacity))))))"


section \<open>Validation models\<close>

text \<open>
  \<open>re.match(HEX_COLOR_REGEX, v)\<close> with the pattern \<open>^#([A-Fa-f0-9]{6})$\<close>.  In Python's
  \<open>re\<close> the anchor \<open>$\<close> matches at the end of the string and also just before a newline
  that ends the string, so the match succeeds on \<open>#\<close>, six hex digits and an optional final
  newline.
\<close>

definition re_match_hex :: "string \<Rightarrow> bool" where
  "re_match_hex v =
     (case v of
        [] \<Rightarrow> False
      | c # rest \<Rightarrow>
          c = CHR ''#'' \<and> 6 \<le> length rest \<and> list_all is_hex_char (take 6 rest) \<and>
          (drop 6 rest = [] \<or> drop 6 rest = [CHR 0x0A]))"

text \<open>
  A validation error is the location of the field and what went wrong there: a bound of
  \<open>Field(...)\<close> that the value breaks, or the \<open>ValueError\<close> a field validator raised, with
  its message.  Validation of a model collects the errors of all its fields.
\<close>

datatype verror = Violates_ge | Violates_gt | Violates_le | Value_error string

type_synonym validation_error = "string list \<times> verror"

definition field_ge_le :: "'a::linorder \<Rightarrow> 'a \<Rightarrow> 'a \<Rightarrow> verror list" where
  "field_ge_le lo hi v = (if v < lo then [Violates_ge] else if hi < v then [Violates_le] else [])"

definition field_gt_le :: "'a::linorder \<Rightarrow> 'a \<Rightarrow> 'a \<Rightarrow> verror list" where
  "field_gt_le lo hi v = (if v \<le> lo then [Violates_gt] else if hi < v then [Violates_le] else [])"

definition at_field :: "string \<Rightarrow> verror list \<Rightarrow> validation_error list" where
  "at_field name es = map (\<lambda>e. ([name], e)) es"

definition in_model :: "string \<Rightarrow> validation_error list \<Rightarrow> validation_error list" where
  "in_model name es = map (\<lambda>(loc, e). (name # loc, e)) es"

datatype fill_type = Solid | Gradient
datatype direction = Vertical | Horizontal

record FillModel =
  fill_type :: fill_type
  fill_color :: "string option"
  fill_colors :: "string list option"
  fill_direction :: "direction option"

text \<open>\<open>if v and not re.match(...)\<close>: \<open>None\<close> and the empty string are falsy and skip the test.\<close>

definition FillModel_validate_color :: "string option \<Rightarrow> verror list" where
  "FillModel_validate_color v =
     (case v of
        None \<Rightarrow> []
      | Some s \<Rightarrow>
          if s \<noteq> [] \<and> \<not> re_match_hex s
          then [Value_error ''Color must be valid HEX like #ff00aa'']
          else [])"

text \<open>\<open>if v: for color in v: ...\<close>: \<open>None\<close> and the empty list skip the loop; the first
  colour that does not match raises.\<close>

fun first_invalid :: "string list \<Rightarrow> verror list" where
  "first_invalid [] = []"
| "first_invalid (color # rest) =
     (if \<not> re_match_hex color then [Value_error (''Invalid gradient color: '' @ color)]
      else first_invalid rest)"

definition FillModel_validate_colors :: "string list option \<Rightarrow> verror list" where
  "FillModel_validate_colors v =
     (case v of None \<Rightarrow> [] | Some cs \<Rightarrow> if cs \<noteq> [] then first_invalid cs else [])"

definition validate_FillModel :: "FillModel \<Rightarrow> validation_error list" where
  "validate_FillModel f =
     at_field ''color'' (FillModel_validate_color (fill_color f)) @
     at_field ''colors'' (FillModel_validate_colors (fill_colors f))"

record StrokeModel =
  stroke_enabled :: bool
  stroke_width :: int
  stroke_color :: string

definition StrokeModel_validate_color :: "string \<Rightarrow> verror list" where
  "StrokeModel_validate_color v =
     (if \<not> re_match_hex v then [Value_error ''Stroke color must be HEX like #000000''] else [])"

definition validate_StrokeModel :: "StrokeModel \<Rightarrow> validation_error list" where
  "validate_StrokeModel s =
     at_field ''width'' (field_ge_le 0 100 (stroke_width s)) @
     at_field ''color'' (StrokeModel_validate_color (stroke_color s))"

record ShadowModel =
  shadow_enabled :: bool
  shadow_offset :: "int list"
  shadow_blur :: int
  shadow_color :: string
  shadow_opacity :: rat

definition ShadowModel_validate_color :: "string \<Rightarrow> verror list" where
  "ShadowModel_validate_color v =
     (if \<not> re_match_hex v then [Value_error ''Shadow color must be HEX like #000000''] else [])"

definition validate_ShadowModel :: "ShadowModel \<Rightarrow> validation_error list" where
  "validate_ShadowModel s =
     at_field ''blur'' (field_ge_le 0 200 (shadow_blur s)) @
     at_field ''color'' (ShadowModel_validate_color (shadow_color s)) @
     at_field ''opacity'' (field_ge_le 0 1 (shadow_opacity s))"

record StyleModel =
  font_path :: string
  font_size :: int
  center :: "int list"
  fill :: FillModel
  stroke :: StrokeModel
  shadow :: ShadowModel
  outer_glow :: ShadowModel
  inner_shadow :: ShadowModel
  letter_spacing :: int
  line_height :: rat
  rotation :: rat
  opacity :: rat

definition validate_StyleModel :: "StyleModel \<Rightarrow> validation_error list" where
  "validate_StyleModel st =
     at_field ''font_size'' (field_gt_le 0 500 (font_size st)) @
     in_model ''fill'' (validate_FillModel (fill st)) @
     in_model ''stroke'' (validate_StrokeModel (stroke st)) @
     in_model ''shadow'' (validate_ShadowModel (shadow st)) @
     in_model ''outer_glow'' (validate_ShadowModel (outer_glow st)) @
     in_model ''inner_shadow'' (validate_ShadowModel (inner_shadow st)) @
     at_field ''letter_spacing'' (field_ge_le 0 100 (letter_spacing st)) @
     at_field ''line_height'' (field_gt_le 0 5 (line_height st)) @
     at_field ''rotation'' (field_ge_le (- 360) 360 (rotation st)) @
     at_field ''opacity'' (field_ge_le 0 1 (opacity st))"

text \<open>\<open>StyleModel(**style_data)\<close> returns the model or raises \<open>ValidationError\<close> with the
  collected errors.\<close>

definition StyleModel_init :: "StyleModel \<Rightarrow> validation_error list + StyleModel" where
  "StyleModel_init st = (case validate_StyleModel st of [] \<Rightarrow> Inr st | es \<Rightarrow> Inl es)"


section \<open>Gradient synthesis\<close>

text \<open>A raster is the array of shape \<open>(height, width, 4)\<close>: a list of rows of pixels.\<close>

type_synonym raster = "rgba list list"

text \<open>Python \<open>xs[i]\<close> for a constant index \<open>i \<ge> 0\<close>.\<close>

definition subscript :: "'a list \<Rightarrow> nat \<Rightarrow> py_error + 'a" where
  "subscript xs i = (if i < length xs then Inr (xs ! i) else Inl IndexError)"

text \<open>Storing a float in a \<open>uint8\<close> array truncates it; values outside the byte range wrap.\<close>

definition uint8 :: "rat \<Rightarrow> int" where
  "uint8 q = trunc q mod 256"

text \<open>One channel of \<open>(1 - ratio) * c1 + ratio * c2\<close>, in binary64, stored as a byte.\<close>

definition mix :: "rat \<Rightarrow> int \<Rightarrow> int \<Rightarrow> int" where
  "mix ratio a b = uint8 (fadd (fmul (fsub 1 ratio) (of_int a)) (fmul ratio (of_int b)))"

fun blend :: "rat \<Rightarrow> rgba \<Rightarrow> rgba \<Rightarrow> rgba" where
  "blend ratio (r1, g1, b1, a1) (r2, g2, b2, a2) =
     (mix ratio r1 r2, mix ratio g1 g2, mix ratio b1 b2, mix ratio a1 a2)"

text \<open>The body of the loop, at index \<open>i\<close>, on the array built so far.\<close>

definition gradient_step ::
  "nat \<Rightarrow> nat \<Rightarrow> direction option \<Rightarrow> rgba \<Rightarrow> rgba \<Rightarrow> nat \<Rightarrow> raster \<Rightarrow> raster" where
  "gradient_step width height direction c1 c2 i gradient =
     (let ratio = fdiv (of_nat i) (of_nat (if direction = Some Vertical then height else width));
          color = blend ratio c1 c2
      in if direction = Some Vertical
         then gradient[i := map (\<lambda>_. color) (gradient ! i)]
         else map (\<lambda>row. row[i := color]) gradient)"

definition create_gradient ::
  "nat \<times> nat \<Rightarrow> string list option \<Rightarrow> direction option \<Rightarrow> py_error + raster" where
  "create_gradient sz colors direction =
     (case sz of (width, height) \<Rightarrow>
        (case colors of
           None \<Rightarrow> Inl TypeError
         | Some cs \<Rightarrow>
             (case subscript cs 0 of
                Inl e \<Rightarrow> Inl e
              | Inr s1 \<Rightarrow>
                  (case hex_to_rgba (Some s1) 1 of
                     Inl e \<Rightarrow> Inl e
                   | Inr c1 \<Rightarrow>
                       (case subscript cs 1 of
                          Inl e \<Rightarrow> Inl e
                        | Inr s2 \<Rightarrow>
                            (case hex_to_rgba (Some s2) 1 of
                               Inl e \<Rightarrow> Inl e
                             | Inr c2 \<Rightarrow>
                                 Inr (fold (gradient_step width height direction c1 c2)
                                        [0 ..< (if direction = Some Vertical then height else width)]
                                        (replicate height (replicate width (0, 0, 0, 0))))))))))"

section \<open>Render engine\<close>

text \<open>
  The imaging library, the text shaper and the file system are outside the program.  A run
  of \<open>render\<close> is modelled by the sequence of calls it makes to them, in order, with the
  arguments it passes.  The environment says whether a path exists, which call raises
  (given the calls made before it), and what the calls that return data return.
\<close>

datatype layer = Text_layer | Mask
datatype ink = RGBA int int int int | L int

datatype call =
    Image_open string
  | Image_new string "nat \<times> nat"
  | Draw_new layer
  | Truetype string int
  | Reshape_text string
  | Textbbox string
  | Draw_text layer "int \<times> int" string "ink option" "(int \<times> ink) option"
  | Paste raster "int \<times> int"
  | Alpha_composite
  | Rotate rat
  | Save string
  | Print_rendered string

record env =
  path_exists :: "string \<Rightarrow> bool"
  raises :: "call list \<Rightarrow> call \<Rightarrow> py_error option"
  image_size :: "string \<Rightarrow> nat \<times> nat"
  shaped :: "string \<Rightarrow> string"
  textbbox :: "string \<Rightarrow> string \<Rightarrow> int \<Rightarrow> int \<times> int \<times> int \<times> int"

type_synonym 'a action = "call list \<Rightarrow> call list \<times> (py_error + 'a)"

definition ret :: "'a \<Rightarrow> 'a action" where
  "ret v = (\<lambda>tr. (tr, Inr v))"

definition lift :: "py_error + 'a \<Rightarrow> 'a action" where
  "lift r = (\<lambda>tr. (tr, r))"

definition and_then :: "'a action \<Rightarrow> ('a \<Rightarrow> 'b action) \<Rightarrow> 'b action" where
  "and_then m f =
     (\<lambda>tr. case m tr of (tr', Inl e) \<Rightarrow> (tr', Inl e) | (tr', Inr v) \<Rightarrow> f v tr')"

definition call :: "env \<Rightarrow> call \<Rightarrow> unit action" where
  "call E c = (\<lambda>tr. (tr @ [c], case raises E tr c of Some e \<Rightarrow> Inl e | None \<Rightarrow> Inr ()))"

definition to_ink :: "rgba \<Rightarrow> ink" where
  "to_ink c = (case c of (r, g, b, a) \<Rightarrow> RGBA r g b a)"

definition apply_fill :: "env \<Rightarrow> nat \<times> nat \<Rightarrow> int \<times> int \<Rightarrow> string \<Rightarrow> StyleModel \<Rightarrow> unit action" where
  "apply_fill E sz xy text style =
     (if fill_type (fill style) = Solid then
        and_then (lift (hex_to_rgba (fill_color (fill style)) (opacity style))) (\<lambda>c.
        call E (Draw_text Text_layer xy text (Some (to_ink c)) None))
      else
        and_then (call E (Image_new ''L'' sz)) (\<lambda>_.
        and_then (call E (Draw_new Mask)) (\<lambda>_.
        and_then (call E (Draw_text Mask xy text (Some (L 255)) None)) (\<lambda>_.
        and_then (lift (create_gradient sz (fill_colors (fill style)) (fill_direction (fill style))))
          (\<lambda>gradient.
        call E (Paste gradient (0, 0)))))))"

definition apply_stroke :: "env \<Rightarrow> int \<times> int \<Rightarrow> string \<Rightarrow> StyleModel \<Rightarrow> unit action" where
  "apply_stroke E xy text style =
     (if stroke_enabled (stroke style) then
        and_then (lift (hex_to_rgba (Some (stroke_color (stroke style))) 1)) (\<lambda>c.
        call E (Draw_text Text_layer xy text None (Some (stroke_width (stroke style), to_ink c))))
      else ret ())"

definition render :: "env \<Rightarrow> string \<Rightarrow> string \<Rightarrow> string \<Rightarrow> StyleModel \<Rightarrow> call list \<times> (py_error + unit)" where
  "render E image_path output_path text style =
     (if \<not> path_exists E (font_path style) then ([], Inl FileNotFoundError)
      else
        and_then (call E (Image_open image_path)) (\<lambda>_.
        and_then (call E (Image_new ''RGBA'' (image_size E image_path))) (\<lambda>_.
        and_then (call E (Draw_new Text_layer)) (\<lambda>_.
        and_then (call E (Truetype (font_path style) (font_size style))) (\<lambda>_.
        and_then (call E (Reshape_text text)) (\<lambda>_.
        and_then (call E (Textbbox (shaped E text))) (\<lambda>_.
        (case textbbox E (shaped E text) (font_path style) (font_size style) of
           (x0, y0, x1, y1) \<Rightarrow>
        and_then (lift (subscript (center style) 0)) (\<lambda>cx.
        and_then (lift (subscript (center style) 1)) (\<lambda>cy.
        and_then (apply_fill E (image_size E image_path)
                    (cx - (x1 - x0) div 2, cy - (y1 - y0) div 2) (shaped E text) style) (\<lambda>_.
        and_then (apply_stroke E
                    (cx - (x1 - x0) div 2, cy - (y1 - y0) div 2) (shaped E text) style) (\<lambda>_.
        and_then (call E Alpha_composite) (\<lambda>_.
        and_then (if rotation style \<noteq> 0 then call E (Rotate (rotation style)) else ret ()) (\<lambda>_.
        and_then (call E (Save output_path)) (\<lambda>_.
        call E (Print_rendered output_path))))))))))))))) [])"

section \<open>The specification's wording\<close>

text \<open>A well-formed colour: \<open>#\<close> followed by exactly six hex digits, and nothing else.\<close>

definition is_hex_color :: "string \<Rightarrow> bool" where
  "is_hex_color s =
     (case s of [] \<Rightarrow> False | c # rest \<Rightarrow> c = CHR ''#'' \<and> length rest = 6 \<and> list_all is_hex_char rest)"

text \<open>The byte that the two hex digits at positions \<open>i\<close> and \<open>i + 1\<close> encode.\<close>

definition byte_at :: "string \<Rightarrow> nat \<Rightarrow> int" where
  "byte_at s i = 16 * hex_val (s ! i) + hex_val (s ! Suc i)"

text \<open>The alpha channel as the specification words it: \<open>round(255 \<times> opacity)\<close>.\<close>

definition spec_alpha :: "rat \<Rightarrow> int" where
  "spec_alpha alpha_scale = round (255 * alpha_scale)"

text \<open>A well-formed colour followed by one final newline.\<close>

definition is_hex_color_newline :: "string \<Rightarrow> bool" where
  "is_hex_color_newline s = (s \<noteq> [] \<and> last s = CHR 0x0A \<and> is_hex_color (butlast s))"

text \<open>The errors that validation of a style reports at one location.\<close>

definition errors_at :: "string list \<Rightarrow> StyleModel \<Rightarrow> verror list" where
  "errors_at loc st = map snd (filter (\<lambda>(l, e). l = loc) (validate_StyleModel st))"

text \<open>
  The fill invariant as the specification words it: a gradient fill carries exactly two
  colours and a direction, a solid fill carries a colour.
\<close>

definition fill_variant_consistent :: "FillModel \<Rightarrow> bool" where
  "fill_variant_consistent f =
     (case fill_type f of
        Solid \<Rightarrow> fill_color f \<noteq> None
      | Gradient \<Rightarrow>
          (case fill_colors f of Some [a, b] \<Rightarrow> fill_direction f \<noteq> None | _ \<Rightarrow> False))"

text \<open>The colour a well-formed string encodes, at full alpha.\<close>

definition rgba_of :: "string \<Rightarrow> rgba" where
  "rgba_of s = (byte_at s 1, byte_at s 3, byte_at s 5, 255)"

text \<open>
  The gradient as the specification words it: the channel at index \<open>i\<close> of \<open>n\<close> is
  \<open>(1 - i/n) \<cdot> a + (i/n) \<cdot> b\<close>, computed exactly, then truncated to an integer.
\<close>

definition spec_mix :: "nat \<Rightarrow> nat \<Rightarrow> int \<Rightarrow> int \<Rightarrow> int" where
  "spec_mix i n a b = trunc ((1 - of_nat i / of_nat n) * of_int a + (of_nat i / of_nat n) * of_int b)"

fun spec_blend :: "nat \<Rightarrow> nat \<Rightarrow> rgba \<Rightarrow> rgba \<Rightarrow> rgba" where
  "spec_blend i n (r1, g1, b1, a1) (r2, g2, b2, a2) =
     (spec_mix i n r1 r2, spec_mix i n g1 g2, spec_mix i n b1 b2, spec_mix i n a1 a2)"

definition spec_gradient :: "nat \<Rightarrow> nat \<Rightarrow> rgba \<Rightarrow> rgba \<Rightarrow> direction \<Rightarrow> raster" where
  "spec_gradient w h c1 c2 d =
     map (\<lambda>y. map (\<lambda>x. case d of Vertical \<Rightarrow> spec_blend y h c1 c2
                                   | Horizontal \<Rightarrow> spec_blend x w c1 c2) [0 ..< w]) [0 ..< h]"

section \<open>A concrete run\<close>

text \<open>A valid style and an environment in which every call succeeds, for concrete instances.\<close>

definition example_shadow :: ShadowModel where
  "example_shadow =
     \<lparr>shadow_enabled = False, shadow_offset = [2, 2], shadow_blur = 4,
      shadow_color = ''#000000'', shadow_opacity = 1 / 2\<rparr>"

definition example_style :: StyleModel where
  "example_style =
     \<lparr>font_path = ''font.ttf'', font_size = 48, center = [100, 100],
      fill = \<lparr>fill_type = Solid, fill_color = Some ''#FF0000'', fill_colors = None,
              fill_direction = None\<rparr>,
      stroke = \<lparr>stroke_enabled = True, stroke_width = 2, stroke_color = ''#000000''\<rparr>,
      shadow = example_shadow, outer_glow = example_shadow, inner_shadow = example_shadow,
      letter_spacing = 0, line_height = 1, rotation = 0, opacity = 1 / 2\<rparr>"

definition example_env :: env where
  "example_env =
     \<lparr>path_exists = (\<lambda>p. True), raises = (\<lambda>tr c. None), image_size = (\<lambda>p. (200, 200)),
      shaped = (\<lambda>t. t), textbbox = (\<lambda>t f n. (0, 3, 41, 30))\<rparr>"

text \<open>
  The draw origin as the specification words it: the centre minus half the box dimension,
  computed exactly, then truncated to an integer.
\<close>

definition spec_origin :: "int \<Rightarrow> int \<Rightarrow> int" where
  "spec_origin c d = trunc (of_int c - of_int d / 2)"

section \<open>Reading a run\<close>

text \<open>The calls of a run, told apart by what they do.\<close>

fun is_save :: "call \<Rightarrow> bool" where
  "is_save (Save p) = True"
| "is_save c = False"

fun is_solid_fill_pass :: "call \<Rightarrow> bool" where
  "is_solid_fill_pass (Draw_text Text_layer xy t (Some c) None) = True"
| "is_solid_fill_pass c = False"

fun is_paste :: "call \<Rightarrow> bool" where
  "is_paste (Paste g xy) = True"
| "is_paste c = False"

fun is_stroke_pass :: "call \<Rightarrow> bool" where
  "is_stroke_pass (Draw_text Text_layer xy t None (Some s)) = True"
| "is_stroke_pass c = False"

text \<open>Every call of \<open>cs\<close>, made in this order after the calls \<open>made\<close>, returned.\<close>

fun all_returned :: "env \<Rightarrow> call list \<Rightarrow> call list \<Rightarrow> bool" where
  "all_returned E made [] = True"
| "all_returned E made (c # cs) = (raises E made c = None \<and> all_returned E (made @ [c]) cs)"

text \<open>The part of a run before the first \<open>save\<close>.\<close>

definition before_save :: "call list \<Rightarrow> call list" where
  "before_save tr = takeWhile (\<lambda>c. \<not> is_save c) tr"

fun is_drawing :: "call \<Rightarrow> bool" where
  "is_drawing (Draw_text l xy t c s) = True"
| "is_drawing (Paste g xy) = True"
| "is_drawing c = False"

text \<open>
  The stages of \<open>render\<close> around the fill and the stroke, named for the proofs: what it does
  up to the draw origin, and what it does after the stroke.
\<close>

definition placement :: "env \<Rightarrow> string \<Rightarrow> string \<Rightarrow> StyleModel \<Rightarrow> (int \<times> int) action" where
  "placement E image_path text style =
     and_then (call E (Image_open image_path)) (\<lambda>_.
     and_then (call E (Image_new ''RGBA'' (image_size E image_path))) (\<lambda>_.
     and_then (call E (Draw_new Text_layer)) (\<lambda>_.
     and_then (call E (Truetype (font_path style) (font_size style))) (\<lambda>_.
     and_then (call E (Reshape_text text)) (\<lambda>_.
     and_then (call E (Textbbox (shaped E text))) (\<lambda>_.
     (case textbbox E (shaped E text) (font_path style) (font_size style) of
        (x0, y0, x1, y1) \<Rightarrow>
     and_then (lift (subscript (center style) 0)) (\<lambda>cx.
     and_then (lift (subscript (center style) 1)) (\<lambda>cy.
     ret (cx - (x1 - x0) div 2, cy - (y1 - y0) div 2))))))))))"

definition finish :: "env \<Rightarrow> string \<Rightarrow> StyleModel \<Rightarrow> unit action" where
  "finish E output_path style =
     and_then (call E Alpha_composite) (\<lambda>_.
     and_then (if rotation style \<noteq> 0 then call E (Rotate (rotation style)) else ret ()) (\<lambda>_.
     and_then (call E (Save output_path)) (\<lambda>_.
     call E (Print_rendered output_path))))"

text \<open>A gradient variant of the example style, and an environment with a 2 by 3 image.\<close>

definition example_gradient_style :: StyleModel where
  "example_gradient_style =
     example_style
       \<lparr>fill := \<lparr>fill_type = Gradient, fill_color = None,
                 fill_colors = Some [''#000000'', ''#FFFFFF''],
                 fill_direction = Some Vertical\<rparr>,
        stroke := \<lparr>stroke_enabled = False, stroke_width = 0, stroke_color = ''#000000''\<rparr>,
        rotation := 90\<rparr>"

definition small_env :: env where
  "small_env = example_env\<lparr>image_size := (\<lambda>p. (2, 3))\<rparr>"

text \<open>An environment in which every call returns except the final \<open>print\<close>, which raises.\<close>

definition print_fails_env :: env where
  "print_fails_env =
     example_env
       \<lparr>raises := (\<lambda>tr c. case c of Print_rendered p \<Rightarrow> Some (External 0) | _ \<Rightarrow> None)\<rparr>"

section \<open>Facts about binary64 rounding\<close>

lemma pow2_pos: "0 < pow2 e" by (simp add: pow2_def)

lemma pow2_powi: "pow2 e = 2 powi e"
  by (simp add: pow2_def power_int_def inverse_eq_divide power_one_over)

lemma pow2_add: "pow2 (a + b) = pow2 a * pow2 b"
  by (simp add: pow2_powi power_int_add)

lemma pow2_mono: "a \<le> b \<Longrightarrow> pow2 a \<le> pow2 b"
  by (simp add: pow2_powi power_int_increasing)

lemma pow2_less_imp: "pow2 a < pow2 b \<Longrightarrow> a < b"
  using pow2_mono [of b a] by (cases "a < b") auto

lemma pow2_nonpos: "k \<le> 0 \<Longrightarrow> pow2 k = 1 / 2 ^ nat (- k)"
  by (cases "k = 0") (simp_all add: pow2_def)

lemma round_half_even_of_int: "round_half_even (of_int z) = z"
  by (simp add: round_half_even_def)

lemma round_half_even_le: assumes "x \<le> of_int M" shows "round_half_even x \<le> M"
proof -
  have f: "\<lfloor>x\<rfloor> \<le> M" using assms by (simp add: floor_le_iff) 
  show ?thesis
  proof (cases "\<lfloor>x\<rfloor> = M")
    case True
    then have "x = of_int M" using assms
      by (metis of_int_floor_le order_antisym)
    then show ?thesis by (simp add: round_half_even_of_int)
  next
    case False
    with f have "\<lfloor>x\<rfloor> + 1 \<le> M" by simp
    then show ?thesis by (simp add: round_half_even_def Let_def)
  qed
qed

lemma round_half_even_nonneg: "0 \<le> x \<Longrightarrow> 0 \<le> round_half_even x"
  by (simp add: round_half_even_def Let_def)

lemma expo_lower: assumes "0 < q" shows "pow2 (expo q) \<le> q"
proof -
  obtain a b where ab: "quotient_of q = (a, b)" by (cases "quotient_of q")
  have b: "0 < b" using ab by (rule quotient_of_denom_pos)
  have q: "q = of_int a / of_int b" using ab by (rule quotient_of_div)
  have a: "0 < a" using assms b q by (simp add: zero_less_divide_iff)
  define d where "d = bitlen a - bitlen b"
  have e: "expo q = (if pow2 d \<le> q then d else d - 1)"
    using assms ab by (simp add: expo_def d_def)
  have la: "1 \<le> bitlen a" using a by (simp add: bitlen_alt_def)
  have "(2::int) ^ nat (bitlen a - 1) \<le> a" using bitlen_bounds [OF a] by simp
  then have "(of_int ((2::int) ^ nat (bitlen a - 1)) :: rat) \<le> of_int a" by (simp only: of_int_le_iff)
  then have A: "pow2 (bitlen a - 1) \<le> of_int a" using la by (simp add: pow2_def)
  have "b < 2 ^ nat (bitlen b)" using bitlen_bounds [OF b] by simp
  then have "(of_int b :: rat) < of_int ((2::int) ^ nat (bitlen b))" by (simp only: of_int_less_iff)
  then have B: "of_int b < pow2 (bitlen b)" using bitlen_nonneg [of b] by (simp add: pow2_def)
  have "pow2 (d - 1) * pow2 (bitlen b) = pow2 (bitlen a - 1)"
    by (simp add: d_def flip: pow2_add)
  then have "pow2 (d - 1) * pow2 (bitlen b) \<le> of_int a" using A by simp
  moreover have "pow2 (d - 1) * of_int b \<le> pow2 (d - 1) * pow2 (bitlen b)"
    using B pow2_pos [of "d - 1"] by (simp add: mult_le_cancel_left_pos)
  ultimately have "pow2 (d - 1) * of_int b \<le> of_int a" by linarith
  then have "pow2 (d - 1) \<le> q" using b by (simp add: q pos_le_divide_eq)
  then show ?thesis by (simp add: e)
qed

lemma expo_less: assumes "0 < q" "q < pow2 n" shows "expo q < n"
  using expo_lower [OF assms(1)] assms(2) pow2_less_imp [of "expo q" n] by linarith

lemma fl_nonneg: assumes "0 \<le> q" shows "0 \<le> fl q"
  using assms pow2_pos by (simp add: fl_def Let_def round_half_even_nonneg less_imp_le)

lemma fl_le_int: assumes "0 < q" "q \<le> of_int N" "N < 2 ^ 53" shows "fl q \<le> of_int N"
proof -
  have "of_int N < (of_int ((2::int) ^ 53) :: rat)" using assms(3) by (simp only: of_int_less_iff)
  then have "q < pow2 53" using assms(2) by (simp add: pow2_def)
  then have e: "expo q < 53" using assms(1) by (rule expo_less [rotated])
  define k where "k = max (expo q) (- 1022) - 52"
  have k: "k \<le> 0" using e by (simp add: k_def)
  define u where "u = pow2 k"
  have u: "u = 1 / 2 ^ nat (- k)" using k by (simp add: u_def pow2_nonpos)
  have fl: "fl q = of_int (round_half_even (q / u)) * u"
    using assms(1) by (simp add: fl_def u_def k_def Let_def)
  have "q / u \<le> of_int (N * 2 ^ nat (- k))" using assms(2) by (simp add: u)
  then have "round_half_even (q / u) \<le> N * 2 ^ nat (- k)" by (rule round_half_even_le)
  then have "(of_int (round_half_even (q / u)) :: rat) \<le> of_int (N * 2 ^ nat (- k))"
    by (simp only: of_int_le_iff)
  then have "of_int (round_half_even (q / u)) * u \<le> of_int (N * 2 ^ nat (- k)) * u"
    using pow2_pos [of k] by (simp add: u_def mult_le_cancel_right_pos)
  also have "of_int (N * 2 ^ nat (- k)) * u = of_int N" by (simp add: u)
  finally show ?thesis by (simp add: fl)
qed

lemma fl_of_int: assumes "\<bar>a\<bar> < 2 ^ 53" shows "fl (of_int a) = of_int a"
proof (cases "a = 0")
  case True then show ?thesis by (simp add: fl_def)
next
  case False
  have ab: "0 < (of_int \<bar>a\<bar> :: rat)" using False by simp
  have "(of_int \<bar>a\<bar> :: rat) < of_int ((2::int) ^ 53)" using assms by (simp only: of_int_less_iff)
  then have "(of_int \<bar>a\<bar> :: rat) < pow2 53" by (simp add: pow2_def)
  then have "expo (of_int \<bar>a\<bar>) < 53" using ab by (rule expo_less [rotated])
  moreover have "expo (of_int a) = expo (of_int \<bar>a\<bar>)" by (simp add: expo_def)
  ultimately have e: "expo (of_int a) < 53" by simp
  define k where "k = max (expo (of_int a)) (- 1022) - 52"
  have k: "k \<le> 0" using e by (simp add: k_def)
  have u: "pow2 k = 1 / 2 ^ nat (- k)" using k by (simp add: pow2_nonpos)
  have "fl (of_int a) = of_int (round_half_even (of_int a / pow2 k)) * pow2 k"
    using False by (simp add: fl_def k_def Let_def)
  also have "of_int a / pow2 k = of_int (a * 2 ^ nat (- k))" by (simp add: u)
  also have "of_int (round_half_even (of_int (a * 2 ^ nat (- k)))) * pow2 k = of_int a"
    by (simp only: round_half_even_of_int) (simp add: u)
  finally show ?thesis .
qed

section \<open>Colour codec\<close>

lemma is_hex_char_not_hash: "is_hex_char c \<Longrightarrow> c \<noteq> CHR ''#''"
  by (auto simp: is_hex_char_def)

lemma hex_val_bounds: "is_hex_char c \<Longrightarrow> 0 \<le> hex_val c \<and> hex_val c \<le> 15"
  by (auto simp: is_hex_char_def hex_val_def Let_def)

lemma is_hex_color_cases:
  assumes "is_hex_color s"
  obtains a b c d e f where "s = [CHR ''#'', a, b, c, d, e, f]"
    and "is_hex_char a" "is_hex_char b" "is_hex_char c" "is_hex_char d" "is_hex_char e" "is_hex_char f"
proof -
  from assms obtain rest where s: "s = CHR ''#'' # rest" and l: "length rest = 6"
    and h: "list_all is_hex_char rest"
    by (auto simp: is_hex_color_def split: list.splits)
  from l obtain a b c d e f where "rest = [a, b, c, d, e, f]"
    by (auto simp: length_Suc_conv eval_nat_numeral)
  with s h that show thesis by simp
qed

lemma hex_to_rgba_hex_color:
  assumes "is_hex_color s"
  shows "hex_to_rgba (Some s) opac =
           Inr (byte_at s 1, byte_at s 3, byte_at s 5, trunc (fmul 255 opac))"
  using assms
  by (elim is_hex_color_cases)
     (simp add: hex_to_rgba_def slice2_def byte_at_def is_hex_char_not_hash eval_nat_numeral)

lemma byte_at_bounds:
  assumes "is_hex_color s" "i \<in> {1, 3, 5}"
  shows "0 \<le> byte_at s i \<and> byte_at s i \<le> 255"
  using assms(1)
proof (elim is_hex_color_cases)
  fix a b c d e f
  assume s: "s = [CHR ''#'', a, b, c, d, e, f]"
    and h: "is_hex_char a" "is_hex_char b" "is_hex_char c" "is_hex_char d" "is_hex_char e" "is_hex_char f"
  from h [THEN hex_val_bounds] assms(2) show ?thesis
    by (auto simp: s byte_at_def eval_nat_numeral)
qed

lemma alpha_bounds:
  assumes "0 \<le> opac" "opac \<le> 1"
  shows "0 \<le> trunc (fmul 255 opac) \<and> trunc (fmul 255 opac) \<le> 255"
proof (cases "opac = 0")
  case True then show ?thesis by (simp add: fmul_def fl_def trunc_def)
next
  case False
  with assms have p: "0 < 255 * opac" by simp
  have "255 * opac \<le> of_int 255" using assms by simp
  then have u: "fl (255 * opac) \<le> of_int 255" using p by (intro fl_le_int) simp_all
  have l: "0 \<le> fl (255 * opac)" using p by (intro fl_nonneg) simp
  from l u show ?thesis by (simp add: fmul_def trunc_def floor_le_iff)
qed

lemma full_alpha: "trunc (fmul 255 1) = 255"
  by code_simp

lemma hex_to_rgba_rgba_of: "is_hex_color s \<Longrightarrow> hex_to_rgba (Some s) 1 = Inr (rgba_of s)"
  by (simp add: hex_to_rgba_hex_color rgba_of_def full_alpha)

lemma hex_to_rgba_alpha:
  assumes "hex_to_rgba hc a = Inr (r, g, b, al)"
  shows "al = trunc (fmul 255 a) \<and> hex_to_rgba hc a' = Inr (r, g, b, trunc (fmul 255 a'))"
  using assms by (auto simp: hex_to_rgba_def Let_def split: option.splits sum.splits)

text \<open>
  Claim C3 as the specification states it asks for the alpha channel \<open>round(255 \<times> opacity)\<close>.
  At opacity \<open>0.5\<close> the product is \<open>127.5\<close>; the code truncates it to \<open>127\<close>, rounding
  would give \<open>128\<close>.
\<close>

theorem hex_to_rgba_alpha_not_rounded: "hex_to_rgba (Some ''#FF00AA'') (1 / 2) \<noteq> Inr (255, 0, 170, spec_alpha (1 / 2))"
  by code_simp

text \<open>
  Claim C3, as amended.  For a well-formed colour \<open>#RRGGBB\<close> and an opacity in \<open>[0, 1]\<close>,
  \<open>hex_to_rgba\<close> returns the three bytes encoded by the digit pairs, each in \<open>[0, 255]\<close>,
  and the alpha channel is the binary64 product \<open>255 * opacity\<close> truncated toward zero
  (not rounded), a value in \<open>[0, 255]\<close>.
\<close>

theorem hex_to_rgba_channels:
  assumes "is_hex_color s" and "0 \<le> opac" and "opac \<le> 1"
  shows "hex_to_rgba (Some s) opac =
           Inr (byte_at s 1, byte_at s 3, byte_at s 5, trunc (fmul 255 opac)) \<and>
         (\<forall>i \<in> {1, 3, 5}. 0 \<le> byte_at s i \<and> byte_at s i \<le> 255) \<and>
         0 \<le> trunc (fmul 255 opac) \<and> trunc (fmul 255 opac) \<le> 255"
  using assms hex_to_rgba_hex_color [of s opac] byte_at_bounds [of s] alpha_bounds [of opac]
  by blast

theorem hex_to_rgba_channels_witness:
  "is_hex_color ''#FF00AA'' \<and> (0::rat) \<le> 1 / 2 \<and> (1 / 2 :: rat) \<le> 1 \<and>
   hex_to_rgba (Some ''#FF00AA'') (1 / 2) = Inr (255, 0, 170, 127) \<and>
   byte_at ''#FF00AA'' 1 = 255 \<and> byte_at ''#FF00AA'' 3 = 0 \<and> byte_at ''#FF00AA'' 5 = 170 \<and>
   trunc (fmul 255 (1 / 2)) = 127"
proof -
  have h: "is_hex_color ''#FF00AA''" by code_simp
  have b: "byte_at ''#FF00AA'' 1 = 255 \<and> byte_at ''#FF00AA'' 3 = 0 \<and> byte_at ''#FF00AA'' 5 = 170"
    by code_simp
  have t: "trunc (fmul 255 (1 / 2)) = 127" by code_simp
  from hex_to_rgba_channels [OF h, of "1 / 2"] h b t show ?thesis by simp
qed

section \<open>Style validation\<close>

lemma re_match_hex_iff: "re_match_hex v \<longleftrightarrow> is_hex_color v \<or> is_hex_color_newline v"
proof (cases v)
  case Nil
  then show ?thesis by (simp add: re_match_hex_def is_hex_color_def is_hex_color_newline_def)
next
  case (Cons c rest)
  show ?thesis
  proof (cases "length rest = 6")
    case True
    then show ?thesis using Cons
      by (auto simp: re_match_hex_def is_hex_color_def is_hex_color_newline_def)
  next
    case False
    note n6 = this
    show ?thesis
    proof (cases "length rest = 7")
      case True
      then obtain a b c' d e f g where r: "rest = [a, b, c', d, e, f, g]"
        by (auto simp: length_Suc_conv eval_nat_numeral)
      show ?thesis using Cons
        by (auto simp: r re_match_hex_def is_hex_color_def is_hex_color_newline_def)
    next
      case False
      have "\<not> re_match_hex v"
      proof
        assume "re_match_hex v"
        then have l: "6 \<le> length rest"
          and d: "drop 6 rest = [] \<or> drop 6 rest = [CHR 0x0A]"
          using Cons by (auto simp: re_match_hex_def)
        from d have "length (drop 6 rest) \<le> 1"
        proof
          assume "drop 6 rest = []"
          then show ?thesis by (simp only: list.size)
        next
          assume "drop 6 rest = [CHR 0x0A]"
          then show ?thesis by (simp only: list.size)
        qed
        with l n6 False show False by simp
      qed
      moreover have "\<not> is_hex_color v" using Cons n6 by (simp add: is_hex_color_def)
      moreover have "\<not> is_hex_color_newline v" using Cons False
        by (auto simp: is_hex_color_newline_def is_hex_color_def split: list.splits if_splits)
      ultimately show ?thesis by simp
    qed
  qed
qed

lemma filter_at_field:
  "map snd (filter (\<lambda>(l, e). l = loc) (at_field n es)) = (if loc = [n] then es else [])"
  by (induction es) (auto simp: at_field_def)

lemma filter_in_model:
  "map snd (filter (\<lambda>(l, e). l = loc) (in_model n ves)) =
     (case loc of [] \<Rightarrow> [] | m # rest \<Rightarrow>
        if m = n then map snd (filter (\<lambda>(l, e). l = rest) ves) else [])"
  by (induction ves) (auto simp: in_model_def split: list.splits)

lemmas errors_at_simps =
  errors_at_def validate_StyleModel_def validate_FillModel_def validate_StrokeModel_def
  validate_ShadowModel_def filter_at_field filter_in_model

lemma errors_at_font_size: "errors_at [''font_size''] st = field_gt_le 0 500 (font_size st)"
  by (simp add: errors_at_simps)

lemma errors_at_stroke_width:
  "errors_at [''stroke'', ''width''] st = field_ge_le 0 100 (stroke_width (stroke st))"
  by (simp add: errors_at_simps)

lemma errors_at_blur:
  "errors_at [''shadow'', ''blur''] st = field_ge_le 0 200 (shadow_blur (shadow st))"
  "errors_at [''outer_glow'', ''blur''] st = field_ge_le 0 200 (shadow_blur (outer_glow st))"
  "errors_at [''inner_shadow'', ''blur''] st = field_ge_le 0 200 (shadow_blur (inner_shadow st))"
  by (simp_all add: errors_at_simps)

lemma errors_at_opacity:
  "errors_at [''opacity''] st = field_ge_le 0 1 (opacity st)"
  "errors_at [''shadow'', ''opacity''] st = field_ge_le 0 1 (shadow_opacity (shadow st))"
  "errors_at [''outer_glow'', ''opacity''] st = field_ge_le 0 1 (shadow_opacity (outer_glow st))"
  "errors_at [''inner_shadow'', ''opacity''] st = field_ge_le 0 1 (shadow_opacity (inner_shadow st))"
  by (simp_all add: errors_at_simps)

lemma errors_at_rotation: "errors_at [''rotation''] st = field_ge_le (- 360) 360 (rotation st)"
  by (simp add: errors_at_simps)

lemma errors_at_line_height: "errors_at [''line_height''] st = field_gt_le 0 5 (line_height st)"
  by (simp add: errors_at_simps)

lemma errors_at_letter_spacing:
  "errors_at [''letter_spacing''] st = field_ge_le 0 100 (letter_spacing st)"
  by (simp add: errors_at_simps)

lemma errors_at_color:
  "errors_at [''fill'', ''color''] st = FillModel_validate_color (fill_color (fill st))"
  "errors_at [''fill'', ''colors''] st = FillModel_validate_colors (fill_colors (fill st))"
  "errors_at [''stroke'', ''color''] st = StrokeModel_validate_color (stroke_color (stroke st))"
  "errors_at [''shadow'', ''color''] st = ShadowModel_validate_color (shadow_color (shadow st))"
  "errors_at [''outer_glow'', ''color''] st = ShadowModel_validate_color (shadow_color (outer_glow st))"
  "errors_at [''inner_shadow'', ''color''] st = ShadowModel_validate_color (shadow_color (inner_shadow st))"
  by (simp_all add: errors_at_simps)

lemma field_ge_le_iff: "field_ge_le lo hi v = [] \<longleftrightarrow> lo \<le> v \<and> v \<le> hi"
  by (auto simp: field_ge_le_def)

lemma field_gt_le_iff: "field_gt_le lo hi v = [] \<longleftrightarrow> lo < v \<and> v \<le> hi"
  by (auto simp: field_gt_le_def)

lemma example_style_valid: "validate_StyleModel example_style = []"
  by code_simp

lemma first_invalid_valid: "list_all re_match_hex cs \<Longrightarrow> first_invalid cs = []"
  by (induction cs) auto

lemma first_invalid_invalid:
  "c \<in> set cs \<Longrightarrow> \<not> re_match_hex c \<Longrightarrow>
   \<exists>d \<in> set cs. \<not> re_match_hex d \<and> first_invalid cs = [Value_error (''Invalid gradient color: '' @ d)]"
  by (induction cs) auto

lemma empty_colors_entry_rejected: "FillModel_validate_colors (Some ['''']) \<noteq> []"
  by (simp add: FillModel_validate_colors_def re_match_hex_def)

text \<open>
  The anchor \<open>$\<close> lets a colour with one final newline through every validator.
\<close>

lemma re_match_hex_trailing_newline: "re_match_hex (''#FF00AA'' @ [CHR 0x0A])"
  by (simp add: re_match_hex_def is_hex_char_def)

text \<open>
  Claim C7.  Validation reports no error at a numeric field exactly when the value lies in
  the field's range: \<open>font_size\<close> in \<open>(0, 500]\<close> (0 and 501 fail, 500 passes),
  \<open>stroke.width\<close> in \<open>[0, 100]\<close>, every \<open>blur\<close> in \<open>[0, 200]\<close>, \<open>opacity\<close> and every
  shadow opacity in \<open>[0, 1]\<close>, \<open>rotation\<close> in \<open>[-360, 360]\<close>, and \<open>line_height\<close> in
  \<open>(0, 5]\<close> (0 fails, 5 passes).
\<close>

theorem range_validation_boundaries:
  "(errors_at [''font_size''] st = [] \<longleftrightarrow> 0 < font_size st \<and> font_size st \<le> 500) \<and>
   errors_at [''font_size''] (st\<lparr>font_size := 0\<rparr>) \<noteq> [] \<and>
   errors_at [''font_size''] (st\<lparr>font_size := 500\<rparr>) = [] \<and>
   errors_at [''font_size''] (st\<lparr>font_size := 501\<rparr>) \<noteq> [] \<and>
   (errors_at [''stroke'', ''width''] st = [] \<longleftrightarrow>
      0 \<le> stroke_width (stroke st) \<and> stroke_width (stroke st) \<le> 100) \<and>
   (errors_at [''shadow'', ''blur''] st = [] \<longleftrightarrow>
      0 \<le> shadow_blur (shadow st) \<and> shadow_blur (shadow st) \<le> 200) \<and>
   (errors_at [''outer_glow'', ''blur''] st = [] \<longleftrightarrow>
      0 \<le> shadow_blur (outer_glow st) \<and> shadow_blur (outer_glow st) \<le> 200) \<and>
   (errors_at [''inner_shadow'', ''blur''] st = [] \<longleftrightarrow>
      0 \<le> shadow_blur (inner_shadow st) \<and> shadow_blur (inner_shadow st) \<le> 200) \<and>
   (errors_at [''opacity''] st = [] \<longleftrightarrow> 0 \<le> opacity st \<and> opacity st \<le> 1) \<and>
   (errors_at [''shadow'', ''opacity''] st = [] \<longleftrightarrow>
      0 \<le> shadow_opacity (shadow st) \<and> shadow_opacity (shadow st) \<le> 1) \<and>
   (errors_at [''outer_glow'', ''opacity''] st = [] \<longleftrightarrow>
      0 \<le> shadow_opacity (outer_glow st) \<and> shadow_opacity (outer_glow st) \<le> 1) \<and>
   (errors_at [''inner_shadow'', ''opacity''] st = [] \<longleftrightarrow>
      0 \<le> shadow_opacity (inner_shadow st) \<and> shadow_opacity (inner_shadow st) \<le> 1) \<and>
   (errors_at [''rotation''] st = [] \<longleftrightarrow> - 360 \<le> rotation st \<and> rotation st \<le> 360) \<and>
   (errors_at [''line_height''] st = [] \<longleftrightarrow> 0 < line_height st \<and> line_height st \<le> 5) \<and>
   errors_at [''line_height''] (st\<lparr>line_height := 0\<rparr>) \<noteq> [] \<and>
   errors_at [''line_height''] (st\<lparr>line_height := 5\<rparr>) = []"
  by (simp add: errors_at_font_size errors_at_stroke_width errors_at_blur errors_at_opacity
        errors_at_rotation errors_at_line_height field_ge_le_iff field_gt_le_iff)

text \<open>
  Claim C9.  The fill validators skip the pattern test for falsy values: an empty-string
  \<open>fill.color\<close> and an empty \<open>fill.colors\<close> list produce no error, and a style that is
  otherwise valid stays valid with \<open>fill.color = ""\<close>; an empty-string colour on the
  stroke or on any of the three shadow objects is reported as an error.
\<close>

theorem fill_validators_skip_falsy:
  "FillModel_validate_color (Some '''') = [] \<and>
   FillModel_validate_colors (Some []) = [] \<and>
   validate_FillModel
     \<lparr>fill_type = t, fill_color = Some '''', fill_colors = Some [], fill_direction = d\<rparr> = [] \<and>
   errors_at [''fill'', ''color''] (st\<lparr>fill := (fill st)\<lparr>fill_color := Some ''''\<rparr>\<rparr>) = [] \<and>
   errors_at [''fill'', ''colors''] (st\<lparr>fill := (fill st)\<lparr>fill_colors := Some []\<rparr>\<rparr>) = [] \<and>
   validate_StyleModel (example_style\<lparr>fill := (fill example_style)\<lparr>fill_color := Some ''''\<rparr>\<rparr>) = [] \<and>
   errors_at [''stroke'', ''color''] (st\<lparr>stroke := (stroke st)\<lparr>stroke_color := ''''\<rparr>\<rparr>) =
     [Value_error ''Stroke color must be HEX like #000000''] \<and>
   errors_at [''shadow'', ''color''] (st\<lparr>shadow := (shadow st)\<lparr>shadow_color := ''''\<rparr>\<rparr>) =
     [Value_error ''Shadow color must be HEX like #000000''] \<and>
   errors_at [''outer_glow'', ''color''] (st\<lparr>outer_glow := (outer_glow st)\<lparr>shadow_color := ''''\<rparr>\<rparr>) =
     [Value_error ''Shadow color must be HEX like #000000''] \<and>
   errors_at [''inner_shadow'', ''color''] (st\<lparr>inner_shadow := (inner_shadow st)\<lparr>shadow_color := ''''\<rparr>\<rparr>) =
     [Value_error ''Shadow color must be HEX like #000000'']"
proof -
  have "validate_StyleModel (example_style\<lparr>fill := (fill example_style)\<lparr>fill_color := Some ''''\<rparr>\<rparr>) = []"
    by code_simp
  then show ?thesis
    by (simp add: errors_at_color FillModel_validate_color_def FillModel_validate_colors_def
        validate_FillModel_def at_field_def StrokeModel_validate_color_def
        ShadowModel_validate_color_def re_match_hex_def)
qed

text \<open>
  Claim C6 as stated requires every string that is not \<open>#\<close> plus six hex digits, the empty
  string included, to fail on every colour field.  The empty string is not such a colour,
  and a fill carrying it validates without error.
\<close>

theorem empty_fill_color_accepted:
  "\<not> is_hex_color '''' \<and>
   validate_FillModel
     \<lparr>fill_type = Solid, fill_color = Some '''', fill_colors = None, fill_direction = None\<rparr> = []"
  by (simp add: is_hex_color_def validate_FillModel_def FillModel_validate_color_def
      FillModel_validate_colors_def at_field_def)

text \<open>
  Claim C6, as amended.  A well-formed colour passes every colour validator, and a list of
  well-formed colours passes as \<open>fill.colors\<close>.  A string that is neither a well-formed
  colour nor one followed by a single final newline is rejected with the validator's
  \<open>ValueError\<close> on the stroke and shadow colours, on \<open>fill.color\<close> unless it is empty, and
  as an entry of \<open>fill.colors\<close>; the empty string is accepted as \<open>fill.color\<close>.
\<close>

theorem color_validation:
  "(is_hex_color v \<longrightarrow>
      FillModel_validate_color (Some v) = [] \<and> StrokeModel_validate_color v = [] \<and>
      ShadowModel_validate_color v = []) \<and>
   (list_all is_hex_color cs \<longrightarrow> FillModel_validate_colors (Some cs) = []) \<and>
   (\<not> is_hex_color w \<and> \<not> is_hex_color_newline w \<longrightarrow>
      StrokeModel_validate_color w = [Value_error ''Stroke color must be HEX like #000000''] \<and>
      ShadowModel_validate_color w = [Value_error ''Shadow color must be HEX like #000000''] \<and>
      (w \<noteq> [] \<longrightarrow>
         FillModel_validate_color (Some w) = [Value_error ''Color must be valid HEX like #ff00aa'']) \<and>
      (w \<in> set ds \<longrightarrow>
         (\<exists>d \<in> set ds. \<not> is_hex_color d \<and>
            FillModel_validate_colors (Some ds) = [Value_error (''Invalid gradient color: '' @ d)]))) \<and>
   FillModel_validate_color (Some '''') = []"
proof -
  have 1: "list_all is_hex_color cs \<Longrightarrow> list_all re_match_hex cs"
    by (induction cs) (auto simp: re_match_hex_iff)
  have 2: "w \<in> set ds \<Longrightarrow> \<not> re_match_hex w \<Longrightarrow>
      \<exists>d \<in> set ds. \<not> is_hex_color d \<and>
            FillModel_validate_colors (Some ds) = [Value_error (''Invalid gradient color: '' @ d)]"
    using first_invalid_invalid [of w ds]
    by (cases ds) (auto simp: FillModel_validate_colors_def re_match_hex_iff)
  show ?thesis
    using 1 2
    by (auto simp: FillModel_validate_color_def StrokeModel_validate_color_def
        ShadowModel_validate_color_def FillModel_validate_colors_def re_match_hex_iff
        first_invalid_valid)
qed

theorem color_validation_witness:
  "is_hex_color ''#ff00AA'' \<and> list_all is_hex_color [''#ff00AA'', ''#000000''] \<and>
   \<not> is_hex_color ''ff00AA'' \<and> \<not> is_hex_color_newline ''ff00AA'' \<and>
   ''ff00AA'' \<noteq> [] \<and> ''ff00AA'' \<in> set [''#000000'', ''ff00AA''] \<and>
   FillModel_validate_color (Some ''#ff00AA'') = [] \<and>
   StrokeModel_validate_color ''#ff00AA'' = [] \<and>
   ShadowModel_validate_color ''#ff00AA'' = [] \<and>
   FillModel_validate_colors (Some [''#ff00AA'', ''#000000'']) = [] \<and>
   StrokeModel_validate_color ''ff00AA'' = [Value_error ''Stroke color must be HEX like #000000''] \<and>
   ShadowModel_validate_color ''ff00AA'' = [Value_error ''Shadow color must be HEX like #000000''] \<and>
   FillModel_validate_color (Some ''ff00AA'') = [Value_error ''Color must be valid HEX like #ff00aa''] \<and>
   FillModel_validate_colors (Some [''#000000'', ''ff00AA'']) \<noteq> []"
proof -
  have a: "is_hex_color ''#ff00AA''" by code_simp
  have b: "list_all is_hex_color [''#ff00AA'', ''#000000'']" by code_simp
  have c: "\<not> is_hex_color ''ff00AA'' \<and> \<not> is_hex_color_newline ''ff00AA''" by code_simp
  have d: "''ff00AA'' \<in> set [''#000000'', ''ff00AA'']" by simp
  from color_validation [of "''#ff00AA''" "[''#ff00AA'', ''#000000'']" "''ff00AA''"
      "[''#000000'', ''ff00AA'']"] a b c d
  show ?thesis by auto
qed

section \<open>Gradient synthesis\<close>

lemma fold_rows_length:
  "length (fold (\<lambda>i g. g[i := f i g]) [0 ..< n] g) = length g"
  by (induction n) simp_all

lemma fold_rows_nth:
  assumes "k < length g"
  shows "fold (\<lambda>i g. g[i := map (\<lambda>_. c i) (g ! i)]) [0 ..< n] g ! k =
           (if k < n then map (\<lambda>_. c k) (g ! k) else g ! k)"
  using assms
proof (induction n)
  case 0
  then show ?case by simp
next
  case (Suc n)
  let ?g = "fold (\<lambda>i g. g[i := map (\<lambda>_. c i) (g ! i)]) [0 ..< n] g"
  have l: "length ?g = length g" by (rule fold_rows_length)
  show ?case
  proof (cases "k = n")
    case True
    then show ?thesis using Suc l by simp
  next
    case False
    then show ?thesis using Suc l by (auto simp: nth_list_update)
  qed
qed

lemma fold_cell_length:
  "length (fold (\<lambda>i row. row[i := c i]) [0 ..< n] row) = length row"
  by (induction n) simp_all

lemma fold_cell_nth:
  assumes "x < length row"
  shows "fold (\<lambda>i row. row[i := c i]) [0 ..< n] row ! x = (if x < n then c x else row ! x)"
  using assms
proof (induction n)
  case 0
  then show ?case by simp
next
  case (Suc n)
  let ?r = "fold (\<lambda>i row. row[i := c i]) [0 ..< n] row"
  have l: "length ?r = length row" by (rule fold_cell_length)
  show ?case
  proof (cases "x = n")
    case True
    then show ?thesis using Suc l by simp
  next
    case False
    then show ?thesis using Suc l by (auto simp: nth_list_update)
  qed
qed

lemma fold_columns:
  "fold (\<lambda>i g. map (\<lambda>row. row[i := c i]) g) [0 ..< n] g =
     map (\<lambda>row. fold (\<lambda>i row. row[i := c i]) [0 ..< n] row) g"
  by (induction n) simp_all

lemma mix_zero:
  assumes "0 \<le> a" "a \<le> 255"
  shows "mix (fdiv 0 n) a b = a"
proof -
  have 0: "fl 0 = 0" by (simp add: fl_def)
  have 1: "fl 1 = 1" using fl_of_int [of 1] by simp
  have a: "fl (of_int a) = of_int a" using assms by (intro fl_of_int) simp
  show ?thesis
    using assms by (simp add: mix_def fdiv_def fsub_def fmul_def fadd_def 0 1 a uint8_def trunc_def)
qed

lemma blend_zero:
  assumes "is_hex_color s"
  shows "blend (fdiv 0 n) (rgba_of s) c2 = rgba_of s"
proof -
  obtain r2 g2 b2 a2 where c2: "c2 = (r2, g2, b2, a2)" by (cases c2)
  from byte_at_bounds [OF assms] show ?thesis
    by (simp add: rgba_of_def c2 mix_zero)
qed

lemma create_gradient_vertical:
  assumes "is_hex_color s1" "is_hex_color s2"
  shows "create_gradient (w, h) (Some [s1, s2]) (Some Vertical) =
     Inr (fold (gradient_step w h (Some Vertical) (rgba_of s1) (rgba_of s2)) [0 ..< h]
            (replicate h (replicate w (0, 0, 0, 0))))"
  using assms by (simp add: create_gradient_def subscript_def hex_to_rgba_rgba_of)

lemma create_gradient_horizontal:
  assumes "is_hex_color s1" "is_hex_color s2"
  shows "create_gradient (w, h) (Some [s1, s2]) (Some Horizontal) =
     Inr (fold (gradient_step w h (Some Horizontal) (rgba_of s1) (rgba_of s2)) [0 ..< w]
            (replicate h (replicate w (0, 0, 0, 0))))"
  using assms by (simp add: create_gradient_def subscript_def hex_to_rgba_rgba_of)

lemma vertical_raster:
  fixes w h c1 c2
  defines "g \<equiv> fold (gradient_step w h (Some Vertical) c1 c2) [0 ..< h]
            (replicate h (replicate w (0, 0, 0, 0)))"
  shows "length g = h"
    and "y < h \<Longrightarrow> length (g ! y) = w"
    and "y < h \<Longrightarrow> x < w \<Longrightarrow> g ! y ! x = blend (fdiv (of_nat y) (of_nat h)) c1 c2"
proof -
  have s: "gradient_step w h (Some Vertical) c1 c2 =
      (\<lambda>i g. g[i := map (\<lambda>_. blend (fdiv (of_nat i) (of_nat h)) c1 c2) (g ! i)])"
    by (intro ext) (simp add: gradient_step_def)
  show "length g = h" by (simp add: g_def s fold_rows_length)
  show "y < h \<Longrightarrow> length (g ! y) = w" by (simp add: g_def s fold_rows_nth)
  show "y < h \<Longrightarrow> x < w \<Longrightarrow> g ! y ! x = blend (fdiv (of_nat y) (of_nat h)) c1 c2"
    by (simp add: g_def s fold_rows_nth)
qed

lemma horizontal_raster:
  fixes w h c1 c2
  defines "g \<equiv> fold (gradient_step w h (Some Horizontal) c1 c2) [0 ..< w]
            (replicate h (replicate w (0, 0, 0, 0)))"
  shows "length g = h"
    and "y < h \<Longrightarrow> length (g ! y) = w"
    and "y < h \<Longrightarrow> x < w \<Longrightarrow> g ! y ! x = blend (fdiv (of_nat x) (of_nat w)) c1 c2"
proof -
  have s: "gradient_step w h (Some Horizontal) c1 c2 =
      (\<lambda>i g. map (\<lambda>row. row[i := blend (fdiv (of_nat i) (of_nat w)) c1 c2]) g)"
    by (intro ext) (simp add: gradient_step_def)
  show "length g = h" by (simp add: g_def s fold_columns)
  show "y < h \<Longrightarrow> length (g ! y) = w" by (simp add: g_def s fold_columns fold_cell_length)
  show "y < h \<Longrightarrow> x < w \<Longrightarrow> g ! y ! x = blend (fdiv (of_nat x) (of_nat w)) c1 c2"
    by (simp add: g_def s fold_columns fold_cell_nth)
qed

text \<open>
  Claim C1 as stated gives every channel the truncation of the exact value of
  \<open>(1 - i/h) \<cdot> c1 + (i/h) \<cdot> c2\<close>.  The code evaluates the expression in binary64, and
  the rounded value can fall just below an integer that the exact value reaches: in a
  5-row vertical gradient from \<open>#FF0000\<close> to \<open>#000000\<close> the exact red value of row 4 is
  \<open>51\<close>, the code stores \<open>50\<close>.
\<close>

theorem gradient_last_row_differs:
  "create_gradient (1, 5) (Some [''#FF0000'', ''#000000'']) (Some Vertical) =
     Inr [[(255, 0, 0, 255)], [(204, 0, 0, 255)], [(153, 0, 0, 255)], [(102, 0, 0, 255)],
          [(50, 0, 0, 255)]] \<and>
   spec_gradient 1 5 (rgba_of ''#FF0000'') (rgba_of ''#000000'') Vertical =
     [[(255, 0, 0, 255)], [(204, 0, 0, 255)], [(153, 0, 0, 255)], [(102, 0, 0, 255)],
      [(51, 0, 0, 255)]]"
  by code_simp

text \<open>
  Claim C1, as amended.  For a size of positive extent, two well-formed colours and a
  direction, \<open>create_gradient\<close> returns a raster of \<open>h\<close> rows of \<open>w\<close> pixels; the pixel
  at row \<open>y\<close>, column \<open>x\<close> is the blend of the two colours (alpha 255 each) at ratio
  \<open>y / h\<close> for a vertical and \<open>x / w\<close> for a horizontal gradient, where the ratio, the
  difference, both products and the sum are binary64 operations and the result is truncated
  to a byte; row 0 (column 0) is exactly the first colour; and at ratio \<open>99 / 100\<close>
  between \<open>#000000\<close> and \<open>#FFFFFF\<close> the three colour channels are \<open>252\<close>.
\<close>

theorem create_gradient_pixels:
  assumes "0 < w" and "0 < h" and "is_hex_color s1" and "is_hex_color s2"
  shows "\<exists>g. create_gradient (w, h) (Some [s1, s2]) (Some d) = Inr g \<and>
           length g = h \<and> (\<forall>y < h. length (g ! y) = w) \<and>
           (\<forall>y < h. \<forall>x < w.
              g ! y ! x =
                (case d of
                   Vertical \<Rightarrow> blend (fdiv (of_nat y) (of_nat h)) (rgba_of s1) (rgba_of s2)
                 | Horizontal \<Rightarrow> blend (fdiv (of_nat x) (of_nat w)) (rgba_of s1) (rgba_of s2))) \<and>
           (\<forall>y < h. \<forall>x < w.
              (case d of Vertical \<Rightarrow> y | Horizontal \<Rightarrow> x) = 0 \<longrightarrow> g ! y ! x = rgba_of s1) \<and>
           blend (fdiv 99 100) (rgba_of ''#000000'') (rgba_of ''#FFFFFF'') = (252, 252, 252, 255)"
proof -
  have e: "blend (fdiv 99 100) (rgba_of ''#000000'') (rgba_of ''#FFFFFF'') = (252, 252, 252, 255)"
    by code_simp
  have z: "blend (fdiv (of_nat 0) n) (rgba_of s1) (rgba_of s2) = rgba_of s1" for n
    using blend_zero [OF assms(3)] by simp
  show ?thesis
  proof (cases d)
    case Vertical
    show ?thesis
      unfolding Vertical create_gradient_vertical [OF assms(3,4)]
      using e z by (auto simp: vertical_raster)
  next
    case Horizontal
    show ?thesis
      unfolding Horizontal create_gradient_horizontal [OF assms(3,4)]
      using e z by (auto simp: horizontal_raster)
  qed
qed

theorem create_gradient_pixels_witness:
  "(0::nat) < 1 \<and> (0::nat) < 100 \<and> is_hex_color ''#000000'' \<and> is_hex_color ''#FFFFFF'' \<and>
   (\<exists>g. create_gradient (1, 100) (Some [''#000000'', ''#FFFFFF'']) (Some Vertical) = Inr g \<and>
        length g = 100 \<and> g ! 0 = [(0, 0, 0, 255)] \<and> g ! 99 = [(252, 252, 252, 255)])"
proof -
  have a: "is_hex_color ''#000000''" and b: "is_hex_color ''#FFFFFF''" by code_simp+
  have z: "rgba_of ''#000000'' = (0, 0, 0, 255)" by code_simp
  obtain g where g: "create_gradient (1, 100) (Some [''#000000'', ''#FFFFFF'']) (Some Vertical) = Inr g"
    and l: "length g = 100" and r: "\<forall>y < 100. length (g ! y) = 1"
    and p: "\<forall>y < 100. \<forall>x < 1. g ! y ! x =
                (case Vertical of
                   Vertical \<Rightarrow> blend (fdiv (of_nat y) (of_nat 100)) (rgba_of ''#000000'') (rgba_of ''#FFFFFF'')
                 | Horizontal \<Rightarrow> blend (fdiv (of_nat x) (of_nat 1)) (rgba_of ''#000000'') (rgba_of ''#FFFFFF''))"
    and f: "\<forall>y < 100. \<forall>x < 1.
              (case Vertical of Vertical \<Rightarrow> y | Horizontal \<Rightarrow> x) = 0 \<longrightarrow> g ! y ! x = rgba_of ''#000000''"
    and e: "blend (fdiv 99 100) (rgba_of ''#000000'') (rgba_of ''#FFFFFF'') = (252, 252, 252, 255)"
    using create_gradient_pixels [of 1 100 "''#000000''" "''#FFFFFF''" Vertical] a b by auto
  have l0: "length (g ! 0) = 1" and l99: "length (g ! 99) = 1" using r by simp_all
  have "g ! 0 ! 0 = (0, 0, 0, 255)" using f z by simp
  then have g0: "g ! 0 = [(0, 0, 0, 255)]" using l0 by (cases "g ! 0") simp_all
  have "g ! 99 ! 0 = (252, 252, 252, 255)" using p e by simp
  then have g99: "g ! 99 = [(252, 252, 252, 255)]" using l99 by (cases "g ! 99") simp_all
  show ?thesis using a b g l g0 g99 by simp
qed

section \<open>Render engine\<close>

lemma and_then_call:
  "and_then (call E c) f tr =
     (case raises E tr c of Some e \<Rightarrow> (tr @ [c], Inl e) | None \<Rightarrow> f () (tr @ [c]))"
  by (simp add: and_then_def call_def split: option.splits)

lemma and_then_lift:
  "and_then (lift r) f tr = (case r of Inl e \<Rightarrow> (tr, Inl e) | Inr v \<Rightarrow> f v tr)"
  by (simp add: and_then_def lift_def split: sum.splits)

lemma and_then_ret: "and_then (ret v) f tr = f v tr"
  by (simp add: and_then_def ret_def)

lemma call_eq:
  "call E c tr = (tr @ [c], case raises E tr c of Some e \<Rightarrow> Inl e | None \<Rightarrow> Inr ())"
  by (simp add: call_def)

lemma subscript_0: "subscript xs 0 = (case xs of [] \<Rightarrow> Inl IndexError | x # _ \<Rightarrow> Inr x)"
  by (simp add: subscript_def split: list.splits)

lemma subscript_1:
  "subscript xs (Suc 0) = (case xs of x # y # _ \<Rightarrow> Inr y | _ \<Rightarrow> Inl IndexError)"
  by (simp add: subscript_def split: list.splits)

lemma and_then_assoc: "and_then (and_then m f) g = and_then m (\<lambda>v. and_then (f v) g)"
  by (auto simp: and_then_def split: prod.splits sum.splits)

lemmas run_simps =
  and_then_assoc and_then_call and_then_lift and_then_ret call_eq subscript_0 subscript_1

lemma and_then_ret_fun: "and_then (ret v) f = f v"
  by (rule ext) (simp add: and_then_def ret_def)

lemma and_then_ret_right: "and_then m (\<lambda>v. ret v) = m"
  by (rule ext) (auto simp: and_then_def ret_def split: prod.splits sum.splits)

lemma render_stages:
  "render E ip op text st =
     (if \<not> path_exists E (font_path st) then ([], Inl FileNotFoundError)
      else and_then (placement E ip text st) (\<lambda>xy.
           and_then (apply_fill E (image_size E ip) xy (shaped E text) st) (\<lambda>_.
           and_then (apply_stroke E xy (shaped E text) st) (\<lambda>_.
           finish E op st))) [])"
  by (cases "textbbox E (shaped E text) (font_path st) (font_size st)")
     (simp add: render_def placement_def finish_def and_then_assoc and_then_ret_fun)

lemma and_then_cases:
  assumes "and_then m f tr = (tr', r)"
  obtains e where "m tr = (tr', Inl e)" "r = Inl e"
        | v tr1 where "m tr = (tr1, Inr v)" "f v tr1 = (tr', r)"
  using assms by (auto simp: and_then_def split: prod.splits sum.splits)

lemma all_returned_append:
  "all_returned E pre (xs @ ys) \<longleftrightarrow> all_returned E pre xs \<and> all_returned E (pre @ xs) ys"
  by (induction xs arbitrary: pre) auto

lemma before_save_append:
  "\<not> list_ex is_save xs \<Longrightarrow> before_save (xs @ ys) = xs @ before_save ys"
  by (induction xs) (auto simp: before_save_def)

lemma before_save_none: "\<not> list_ex is_save xs \<Longrightarrow> before_save xs = xs"
  by (induction xs) (auto simp: before_save_def)

lemma placement_run:
  assumes "placement E ip text st tr = (tr', r)"
    and "textbbox E (shaped E text) (font_path st) (font_size st) = (x0, y0, x1, y1)"
  shows "\<exists>ext. tr' = tr @ ext \<and> list_all (\<lambda>c. \<not> is_save c \<and> \<not> is_drawing c) ext \<and>
           (\<forall>xy. r = Inr xy \<longrightarrow>
              all_returned E tr ext \<and>
              (\<exists>cx cy rest. center st = cx # cy # rest \<and>
                 xy = (cx - (x1 - x0) div 2, cy - (y1 - y0) div 2)))"
  using assms unfolding placement_def
  by (auto simp: run_simps ret_def split: option.splits sum.splits list.splits)

lemma apply_fill_run:
  assumes "apply_fill E sz xy t st tr = (tr', r)"
  shows "\<exists>ext. tr' = tr @ ext \<and> list_all (\<lambda>c. \<not> is_save c \<and> \<not> is_stroke_pass c) ext \<and>
           (\<forall>l xy' t' i s. Draw_text l xy' t' i s \<in> set ext \<longrightarrow>
              xy' = xy \<and> s = None \<and>
              (l = Text_layer \<longrightarrow>
                 fill_type (fill st) = Solid \<and>
                 (\<exists>c. hex_to_rgba (fill_color (fill st)) (opacity st) = Inr c \<and>
                      i = Some (to_ink c))) \<and>
              (l = Mask \<longrightarrow> fill_type (fill st) = Gradient \<and> i = Some (L 255))) \<and>
           (\<forall>g p. Paste g p \<in> set ext \<longrightarrow>
              fill_type (fill st) = Gradient \<and>
              create_gradient sz (fill_colors (fill st)) (fill_direction (fill st)) = Inr g) \<and>
           (r = Inr () \<longrightarrow>
              all_returned E tr ext \<and>
              (fill_type (fill st) = Solid \<longrightarrow> list_ex is_solid_fill_pass ext) \<and>
              (fill_type (fill st) = Gradient \<longrightarrow> list_ex is_paste ext))"
  using assms unfolding apply_fill_def
  by (cases "fill_type (fill st)")
     (auto simp: run_simps to_ink_def split: option.splits sum.splits if_splits)

lemma apply_stroke_run:
  assumes "apply_stroke E xy t st tr = (tr', r)"
  shows "\<exists>ext. tr' = tr @ ext \<and> list_all (\<lambda>c. \<not> is_save c \<and> \<not> is_paste c) ext \<and>
           (\<forall>l xy' t' i s. Draw_text l xy' t' i s \<in> set ext \<longrightarrow>
              xy' = xy \<and> l = Text_layer \<and> i = None \<and> stroke_enabled (stroke st) \<and>
              (\<exists>c. hex_to_rgba (Some (stroke_color (stroke st))) 1 = Inr c \<and>
                   s = Some (stroke_width (stroke st), to_ink c))) \<and>
           (r = Inr () \<longrightarrow>
              all_returned E tr ext \<and>
              (stroke_enabled (stroke st) \<longrightarrow> list_ex is_stroke_pass ext))"
  using assms unfolding apply_stroke_def
  by (auto simp: run_simps ret_def to_ink_def split: option.splits sum.splits if_splits)

lemma finish_run:
  assumes "finish E op st tr = (tr', r)"
  shows "\<exists>pre. list_all (\<lambda>c. \<not> is_save c \<and> \<not> is_drawing c) pre \<and>
           ((tr' = tr @ pre \<and> (\<exists>e. r = Inl e)) \<or>
            (all_returned E tr pre \<and> Alpha_composite \<in> set pre \<and>
             (rotation st \<noteq> 0 \<longrightarrow> Rotate (rotation st) \<in> set pre) \<and>
             ((tr' = tr @ pre @ [Save op] \<and>
               (\<exists>e. r = Inl e \<and> raises E (tr @ pre) (Save op) = Some e)) \<or>
              (tr' = tr @ pre @ [Save op, Print_rendered op] \<and>
               raises E (tr @ pre) (Save op) = None \<and>
               (r = Inr () \<or>
                (\<exists>e. r = Inl e \<and>
                   raises E (tr @ pre @ [Save op]) (Print_rendered op) = Some e))))))"
proof (cases "rotation st \<noteq> 0")
  case True
  show ?thesis
  proof (cases "raises E tr Alpha_composite")
    case (Some e)
    with assms show ?thesis
      by (intro exI [of _ "[Alpha_composite]"]) (auto simp: finish_def run_simps)
  next
    case None
    note a = this
    show ?thesis
    proof (cases "raises E (tr @ [Alpha_composite]) (Rotate (rotation st))")
      case (Some e)
      with assms a True show ?thesis
        by (intro exI [of _ "[Alpha_composite, Rotate (rotation st)]"])
           (auto simp: finish_def run_simps)
    next
      case None
      with assms a True show ?thesis
        by (intro exI [of _ "[Alpha_composite, Rotate (rotation st)]"])
           (auto simp: finish_def run_simps split: option.splits)
    qed
  qed
next
  case False
  show ?thesis
  proof (cases "raises E tr Alpha_composite")
    case (Some e)
    with assms show ?thesis
      by (intro exI [of _ "[Alpha_composite]"]) (auto simp: finish_def run_simps)
  next
    case None
    with assms False show ?thesis
      by (intro exI [of _ "[Alpha_composite]"])
         (auto simp: finish_def run_simps split: option.splits)
  qed
qed

lemma render_decompose:
  assumes "render E ip op text st = (tr, res)" and "path_exists E (font_path st)"
  obtains e where "placement E ip text st [] = (tr, Inl e)" "res = Inl e"
  | xy t1 e where "placement E ip text st [] = (t1, Inr xy)"
      "apply_fill E (image_size E ip) xy (shaped E text) st t1 = (tr, Inl e)" "res = Inl e"
  | xy t1 t2 e where "placement E ip text st [] = (t1, Inr xy)"
      "apply_fill E (image_size E ip) xy (shaped E text) st t1 = (t2, Inr ())"
      "apply_stroke E xy (shaped E text) st t2 = (tr, Inl e)" "res = Inl e"
  | xy t1 t2 t3 where "placement E ip text st [] = (t1, Inr xy)"
      "apply_fill E (image_size E ip) xy (shaped E text) st t1 = (t2, Inr ())"
      "apply_stroke E xy (shaped E text) st t2 = (t3, Inr ())"
      "finish E op st t3 = (tr, res)"
  using assms unfolding render_stages by (auto elim!: and_then_cases)

lemma finish_no_drawing:
  assumes "finish E op st tr = (tr @ z, r)" and "c \<in> set z"
  shows "\<not> is_drawing c"
  using finish_run [OF assms(1)] assms(2) by (auto simp: list_all_iff)

lemma finish_extends:
  assumes "finish E op st tr = (tr', r)"
  obtains z where "tr' = tr @ z"
  using finish_run [OF assms] by auto

lemma render_no_font:
  "\<not> path_exists E (font_path st) \<Longrightarrow> render E ip op text st = ([], Inl FileNotFoundError)"
  by (simp add: render_def)

lemma placement_ext:
  assumes "placement E ip text st tr = (tr', r)"
  obtains ext where "tr' = tr @ ext"
proof -
  obtain x0 y0 x1 y1
    where "textbbox E (shaped E text) (font_path st) (font_size st) = (x0, y0, x1, y1)"
    by (cases "textbbox E (shaped E text) (font_path st) (font_size st)")
  from placement_run [OF assms this] that show thesis by auto
qed

lemma placement_quiet:
  assumes "placement E ip text st tr = (tr @ ext, r)" and "c \<in> set ext"
  shows "\<not> is_save c \<and> \<not> is_drawing c"
proof -
  obtain x0 y0 x1 y1
    where "textbbox E (shaped E text) (font_path st) (font_size st) = (x0, y0, x1, y1)"
    by (cases "textbbox E (shaped E text) (font_path st) (font_size st)")
  from placement_run [OF assms(1) this] assms(2) show ?thesis by (auto simp: list_all_iff)
qed

lemma placement_ok:
  assumes "placement E ip text st tr = (tr @ ext, Inr xy)"
    and "textbbox E (shaped E text) (font_path st) (font_size st) = (x0, y0, x1, y1)"
  shows "all_returned E tr ext \<and>
         (\<exists>cx cy rest. center st = cx # cy # rest \<and>
            xy = (cx - (x1 - x0) div 2, cy - (y1 - y0) div 2))"
  using placement_run [OF assms] by auto

lemma apply_fill_ext:
  assumes "apply_fill E sz xy t st tr = (tr', r)"
  obtains ext where "tr' = tr @ ext"
  using apply_fill_run [OF assms] that by auto

lemma apply_fill_quiet:
  assumes "apply_fill E sz xy t st tr = (tr @ ext, r)" and "c \<in> set ext"
  shows "\<not> is_save c \<and> \<not> is_stroke_pass c"
  using apply_fill_run [OF assms(1)] assms(2) by (auto simp: list_all_iff)

lemma apply_fill_draw:
  assumes "apply_fill E sz xy t st tr = (tr @ ext, r)" and "Draw_text l xy' t' i s \<in> set ext"
  shows "xy' = xy \<and> s = None \<and>
         (l = Text_layer \<longrightarrow>
            fill_type (fill st) = Solid \<and>
            (\<exists>c. hex_to_rgba (fill_color (fill st)) (opacity st) = Inr c \<and> i = Some (to_ink c))) \<and>
              (l = Mask \<longrightarrow> fill_type (fill st) = Gradient \<and> i = Some (L 255))"
proof -
  from apply_fill_run [OF assms(1)]
  have "\<forall>l xy' t' i s. Draw_text l xy' t' i s \<in> set ext \<longrightarrow>
              xy' = xy \<and> s = None \<and>
              (l = Text_layer \<longrightarrow>
                 fill_type (fill st) = Solid \<and>
                 (\<exists>c. hex_to_rgba (fill_color (fill st)) (opacity st) = Inr c \<and>
                      i = Some (to_ink c))) \<and>
              (l = Mask \<longrightarrow> fill_type (fill st) = Gradient \<and> i = Some (L 255))"
    by auto
  with assms(2) show ?thesis by blast
qed

lemma apply_fill_paste:
  assumes "apply_fill E sz xy t st tr = (tr @ ext, r)" and "Paste g p \<in> set ext"
  shows "fill_type (fill st) = Gradient \<and>
         create_gradient sz (fill_colors (fill st)) (fill_direction (fill st)) = Inr g"
proof -
  from apply_fill_run [OF assms(1)]
  have "\<forall>g p. Paste g p \<in> set ext \<longrightarrow>
              fill_type (fill st) = Gradient \<and>
              create_gradient sz (fill_colors (fill st)) (fill_direction (fill st)) = Inr g"
    by auto
  with assms(2) show ?thesis by blast
qed

lemma apply_fill_ok:
  assumes "apply_fill E sz xy t st tr = (tr @ ext, Inr ())"
  shows "all_returned E tr ext \<and>
         (fill_type (fill st) = Solid \<longrightarrow> list_ex is_solid_fill_pass ext) \<and>
         (fill_type (fill st) = Gradient \<longrightarrow> list_ex is_paste ext)"
  using apply_fill_run [OF assms] by auto

lemma apply_stroke_ext:
  assumes "apply_stroke E xy t st tr = (tr', r)"
  obtains ext where "tr' = tr @ ext"
  using apply_stroke_run [OF assms] that by auto

lemma apply_stroke_quiet:
  assumes "apply_stroke E xy t st tr = (tr @ ext, r)" and "c \<in> set ext"
  shows "\<not> is_save c \<and> \<not> is_paste c"
  using apply_stroke_run [OF assms(1)] assms(2) by (auto simp: list_all_iff)

lemma apply_stroke_draw:
  assumes "apply_stroke E xy t st tr = (tr @ ext, r)" and "Draw_text l xy' t' i s \<in> set ext"
  shows "xy' = xy \<and> l = Text_layer \<and> i = None \<and> stroke_enabled (stroke st) \<and>
         (\<exists>c. hex_to_rgba (Some (stroke_color (stroke st))) 1 = Inr c \<and>
              s = Some (stroke_width (stroke st), to_ink c))"
proof -
  from apply_stroke_run [OF assms(1)]
  have "\<forall>l xy' t' i s. Draw_text l xy' t' i s \<in> set ext \<longrightarrow>
              xy' = xy \<and> l = Text_layer \<and> i = None \<and> stroke_enabled (stroke st) \<and>
              (\<exists>c. hex_to_rgba (Some (stroke_color (stroke st))) 1 = Inr c \<and>
                   s = Some (stroke_width (stroke st), to_ink c))"
    by auto
  with assms(2) show ?thesis by blast
qed

lemma apply_stroke_ok:
  assumes "apply_stroke E xy t st tr = (tr @ ext, Inr ())"
  shows "all_returned E tr ext \<and> (stroke_enabled (stroke st) \<longrightarrow> list_ex is_stroke_pass ext)"
  using apply_stroke_run [OF assms] by auto

lemma render_draw_text:
  assumes run: "render E ip op text st = (tr, res)"
    and b: "textbbox E (shaped E text) (font_path st) (font_size st) = (x0, y0, x1, y1)"
    and m: "Draw_text l xy t i sk \<in> set tr"
  shows "(\<exists>cx cy rest. center st = cx # cy # rest \<and>
            xy = (cx - (x1 - x0) div 2, cy - (y1 - y0) div 2)) \<and>
         ((sk = None \<and>
           (l = Text_layer \<longrightarrow>
              fill_type (fill st) = Solid \<and>
              (\<exists>c. hex_to_rgba (fill_color (fill st)) (opacity st) = Inr c \<and>
                   i = Some (to_ink c))) \<and>
              (l = Mask \<longrightarrow> fill_type (fill st) = Gradient \<and> i = Some (L 255))) \<or>
          (l = Text_layer \<and> i = None \<and> stroke_enabled (stroke st) \<and>
           (\<exists>c. hex_to_rgba (Some (stroke_color (stroke st))) 1 = Inr c \<and>
                sk = Some (stroke_width (stroke st), to_ink c))))"
proof (cases "path_exists E (font_path st)")
  case False
  with run m show ?thesis by (simp add: render_no_font)
next
  case True
  let ?c = "Draw_text l xy t i sk"
  have d: "is_drawing ?c" by simp
  from run True show ?thesis
  proof (cases rule: render_decompose)
    case (1 e)
    from 1(1) obtain p where p: "tr = [] @ p" by (rule placement_ext)
    from m p have "?c \<in> set p" by simp
    from placement_quiet [OF 1(1) [unfolded p] this] d show ?thesis by simp
  next
    case (2 xy' t1 e)
    from 2(1) obtain p where p: "t1 = [] @ p" by (rule placement_ext)
    from 2(2) obtain f where f: "tr = t1 @ f" by (rule apply_fill_ext)
    note o = placement_ok [OF 2(1) [unfolded p] b]
    from m p f have "?c \<in> set p \<or> ?c \<in> set f" by simp
    then show ?thesis
    proof
      assume "?c \<in> set p"
      from placement_quiet [OF 2(1) [unfolded p] this] d show ?thesis by simp
    next
      assume "?c \<in> set f"
      from apply_fill_draw [OF 2(2) [unfolded f] this] o show ?thesis by blast
    qed
  next
    case (3 xy' t1 t2 e)
    from 3(1) obtain p where p: "t1 = [] @ p" by (rule placement_ext)
    from 3(2) obtain f where f: "t2 = t1 @ f" by (rule apply_fill_ext)
    from 3(3) obtain s where s: "tr = t2 @ s" by (rule apply_stroke_ext)
    note o = placement_ok [OF 3(1) [unfolded p] b]
    from m p f s have "?c \<in> set p \<or> ?c \<in> set f \<or> ?c \<in> set s" by simp
    then show ?thesis
    proof (elim disjE)
      assume "?c \<in> set p"
      from placement_quiet [OF 3(1) [unfolded p] this] d show ?thesis by simp
    next
      assume "?c \<in> set f"
      from apply_fill_draw [OF 3(2) [unfolded f] this] o show ?thesis by blast
    next
      assume "?c \<in> set s"
      from apply_stroke_draw [OF 3(3) [unfolded s] this] o show ?thesis by blast
    qed
  next
    case (4 xy' t1 t2 t3)
    from 4(1) obtain p where p: "t1 = [] @ p" by (rule placement_ext)
    from 4(2) obtain f where f: "t2 = t1 @ f" by (rule apply_fill_ext)
    from 4(3) obtain s where s: "t3 = t2 @ s" by (rule apply_stroke_ext)
    from 4(4) obtain z where z: "tr = t3 @ z" by (rule finish_extends)
    note o = placement_ok [OF 4(1) [unfolded p] b]
    from m p f s z have "?c \<in> set p \<or> ?c \<in> set f \<or> ?c \<in> set s \<or> ?c \<in> set z" by simp
    then show ?thesis
    proof (elim disjE)
      assume "?c \<in> set p"
      from placement_quiet [OF 4(1) [unfolded p] this] d show ?thesis by simp
    next
      assume "?c \<in> set f"
      from apply_fill_draw [OF 4(2) [unfolded f] this] o show ?thesis by blast
    next
      assume "?c \<in> set s"
      from apply_stroke_draw [OF 4(3) [unfolded s] this] o show ?thesis by blast
    next
      assume "?c \<in> set z"
      from finish_no_drawing [OF 4(4) [unfolded z] this] d show ?thesis by simp
    qed
  qed
qed

lemma before_save_at_save: "\<not> list_ex is_save xs \<Longrightarrow> before_save (xs @ Save p # ys) = xs"
  by (induction xs) (auto simp: before_save_def)

lemma finish_after:
  assumes fin: "finish E op st t3 = (tr, res)"
    and ns: "\<not> list_ex is_save t3"
    and ar: "all_returned E [] t3"
  shows "(list_ex is_save tr \<longrightarrow>
            all_returned E [] (before_save tr) \<and> (\<exists>pre. before_save tr = t3 @ pre) \<and>
            Alpha_composite \<in> set (before_save tr) \<and>
            (rotation st \<noteq> 0 \<longrightarrow> Rotate (rotation st) \<in> set (before_save tr)) \<and>
            (tr = before_save tr @ [Save op] \<or>
             tr = before_save tr @ [Save op, Print_rendered op])) \<and>
         (\<forall>e. res = Inl e \<longrightarrow>
            \<not> list_ex is_save tr \<or>
            (tr = before_save tr @ [Save op] \<and> raises E (before_save tr) (Save op) = Some e) \<or>
            (tr = before_save tr @ [Save op, Print_rendered op] \<and>
             raises E (before_save tr @ [Save op]) (Print_rendered op) = Some e)) \<and>
         (res = Inr () \<longrightarrow> list_ex is_save tr)"
proof -
  from finish_run [OF fin] obtain pre
    where q: "list_all (\<lambda>c. \<not> is_save c \<and> \<not> is_drawing c) pre"
      and d: "(tr = t3 @ pre \<and> (\<exists>e. res = Inl e)) \<or>
            (all_returned E t3 pre \<and> Alpha_composite \<in> set pre \<and>
             (rotation st \<noteq> 0 \<longrightarrow> Rotate (rotation st) \<in> set pre) \<and>
             ((tr = t3 @ pre @ [Save op] \<and>
               (\<exists>e. res = Inl e \<and> raises E (t3 @ pre) (Save op) = Some e)) \<or>
              (tr = t3 @ pre @ [Save op, Print_rendered op] \<and>
               raises E (t3 @ pre) (Save op) = None \<and>
               (res = Inr () \<or>
                (\<exists>e. res = Inl e \<and>
                   raises E (t3 @ pre @ [Save op]) (Print_rendered op) = Some e)))))"
    by blast
  from q ns have nsp: "\<not> list_ex is_save (t3 @ pre)" by (auto simp: list_ex_iff list_all_iff)
  have b1: "before_save ((t3 @ pre) @ [Save op]) = t3 @ pre"
    and b2: "before_save ((t3 @ pre) @ [Save op, Print_rendered op]) = t3 @ pre"
    using nsp by (rule before_save_at_save)+
  from d show ?thesis
  proof (elim disjE conjE exE)
    fix e assume "tr = t3 @ pre" "res = Inl e"
    with nsp show ?thesis by simp
  next
    fix e assume "all_returned E t3 pre" "Alpha_composite \<in> set pre"
      "rotation st \<noteq> 0 \<longrightarrow> Rotate (rotation st) \<in> set pre"
      "tr = t3 @ pre @ [Save op]" "res = Inl e" "raises E (t3 @ pre) (Save op) = Some e"
    with ar b1 show ?thesis by (simp add: all_returned_append)
  next
    assume "all_returned E t3 pre" "Alpha_composite \<in> set pre"
      "rotation st \<noteq> 0 \<longrightarrow> Rotate (rotation st) \<in> set pre"
      "tr = t3 @ pre @ [Save op, Print_rendered op]" "res = Inr ()"
    with ar b2 show ?thesis by (simp add: all_returned_append)
  next
    fix e assume "all_returned E t3 pre" "Alpha_composite \<in> set pre"
      "rotation st \<noteq> 0 \<longrightarrow> Rotate (rotation st) \<in> set pre"
      "tr = t3 @ pre @ [Save op, Print_rendered op]" "res = Inl e"
      "raises E (t3 @ pre @ [Save op]) (Print_rendered op) = Some e"
    with ar b2 show ?thesis by (simp add: all_returned_append)
  qed
qed

lemma render_paste:
  assumes run: "render E ip op text st = (tr, res)" and m: "Paste g q \<in> set tr"
  shows "fill_type (fill st) = Gradient \<and>
         create_gradient (image_size E ip) (fill_colors (fill st)) (fill_direction (fill st)) = Inr g"
proof (cases "path_exists E (font_path st)")
  case False
  with run m show ?thesis by (simp add: render_no_font)
next
  case True
  let ?c = "Paste g q"
  have d: "is_drawing ?c" "is_paste ?c" by simp_all
  from run True show ?thesis
  proof (cases rule: render_decompose)
    case (1 e)
    from 1(1) obtain p where p: "tr = [] @ p" by (rule placement_ext)
    from m p have "?c \<in> set p" by simp
    from placement_quiet [OF 1(1) [unfolded p] this] d show ?thesis by simp
  next
    case (2 xy' t1 e)
    from 2(1) obtain p where p: "t1 = [] @ p" by (rule placement_ext)
    from 2(2) obtain f where f: "tr = t1 @ f" by (rule apply_fill_ext)
    from m p f have "?c \<in> set p \<or> ?c \<in> set f" by simp
    then show ?thesis
    proof
      assume "?c \<in> set p"
      from placement_quiet [OF 2(1) [unfolded p] this] d show ?thesis by simp
    next
      assume "?c \<in> set f"
      from apply_fill_paste [OF 2(2) [unfolded f] this] show ?thesis .
    qed
  next
    case (3 xy' t1 t2 e)
    from 3(1) obtain p where p: "t1 = [] @ p" by (rule placement_ext)
    from 3(2) obtain f where f: "t2 = t1 @ f" by (rule apply_fill_ext)
    from 3(3) obtain s where s: "tr = t2 @ s" by (rule apply_stroke_ext)
    from m p f s have "?c \<in> set p \<or> ?c \<in> set f \<or> ?c \<in> set s" by simp
    then show ?thesis
    proof (elim disjE)
      assume "?c \<in> set p"
      from placement_quiet [OF 3(1) [unfolded p] this] d show ?thesis by simp
    next
      assume "?c \<in> set f"
      from apply_fill_paste [OF 3(2) [unfolded f] this] show ?thesis .
    next
      assume "?c \<in> set s"
      from apply_stroke_quiet [OF 3(3) [unfolded s] this] d show ?thesis by simp
    qed
  next
    case (4 xy' t1 t2 t3)
    from 4(1) obtain p where p: "t1 = [] @ p" by (rule placement_ext)
    from 4(2) obtain f where f: "t2 = t1 @ f" by (rule apply_fill_ext)
    from 4(3) obtain s where s: "t3 = t2 @ s" by (rule apply_stroke_ext)
    from 4(4) obtain z where z: "tr = t3 @ z" by (rule finish_extends)
    from m p f s z have "?c \<in> set p \<or> ?c \<in> set f \<or> ?c \<in> set s \<or> ?c \<in> set z" by simp
    then show ?thesis
    proof (elim disjE)
      assume "?c \<in> set p"
      from placement_quiet [OF 4(1) [unfolded p] this] d show ?thesis by simp
    next
      assume "?c \<in> set f"
      from apply_fill_paste [OF 4(2) [unfolded f] this] show ?thesis .
    next
      assume "?c \<in> set s"
      from apply_stroke_quiet [OF 4(3) [unfolded s] this] d show ?thesis by simp
    next
      assume "?c \<in> set z"
      from finish_no_drawing [OF 4(4) [unfolded z] this] d show ?thesis by simp
    qed
  qed
qed

lemma no_save_placement:
  "placement E ip text st tr = (tr @ ext, r) \<Longrightarrow> \<not> list_ex is_save ext"
  by (auto simp: list_ex_iff dest: placement_quiet)

lemma no_save_fill:
  "apply_fill E sz xy t st tr = (tr @ ext, r) \<Longrightarrow> \<not> list_ex is_save ext"
  by (auto simp: list_ex_iff dest: apply_fill_quiet)

lemma no_save_stroke:
  "apply_stroke E xy t st tr = (tr @ ext, r) \<Longrightarrow> \<not> list_ex is_save ext"
  by (auto simp: list_ex_iff dest: apply_stroke_quiet)

lemma output_shape:
  assumes run: "render E ip op text st = (tr, res)"
  shows "(\<not> path_exists E (font_path st) \<longrightarrow> tr = [] \<and> res = Inl FileNotFoundError) \<and>
         (list_ex is_save tr \<longrightarrow>
            all_returned E [] (before_save tr) \<and>
            (fill_type (fill st) = Solid \<longrightarrow> list_ex is_solid_fill_pass (before_save tr)) \<and>
            (fill_type (fill st) = Gradient \<longrightarrow> list_ex is_paste (before_save tr)) \<and>
            (stroke_enabled (stroke st) \<longrightarrow> list_ex is_stroke_pass (before_save tr)) \<and>
            Alpha_composite \<in> set (before_save tr) \<and>
            (rotation st \<noteq> 0 \<longrightarrow> Rotate (rotation st) \<in> set (before_save tr)) \<and>
            (tr = before_save tr @ [Save op] \<or>
             tr = before_save tr @ [Save op, Print_rendered op])) \<and>
         (\<forall>e. res = Inl e \<longrightarrow>
            \<not> list_ex is_save tr \<or>
            (tr = before_save tr @ [Save op] \<and> raises E (before_save tr) (Save op) = Some e) \<or>
            (tr = before_save tr @ [Save op, Print_rendered op] \<and>
             raises E (before_save tr @ [Save op]) (Print_rendered op) = Some e)) \<and>
         (res = Inr () \<longrightarrow> list_ex is_save tr)"
proof (cases "path_exists E (font_path st)")
  case False
  with run show ?thesis by (auto simp: render_no_font)
next
  case True
  from run True show ?thesis
  proof (cases rule: render_decompose)
    case (1 e)
    from 1(1) obtain p where p: "tr = [] @ p" by (rule placement_ext)
    from no_save_placement [OF 1(1) [unfolded p]] p 1(2) True show ?thesis by auto
  next
    case (2 xy t1 e)
    from 2(1) obtain p where p: "t1 = [] @ p" by (rule placement_ext)
    from 2(2) obtain f where f: "tr = t1 @ f" by (rule apply_fill_ext)
    from no_save_placement [OF 2(1) [unfolded p]] no_save_fill [OF 2(2) [unfolded f]] p f 2(3) True
    show ?thesis by auto
  next
    case (3 xy t1 t2 e)
    from 3(1) obtain p where p: "t1 = [] @ p" by (rule placement_ext)
    from 3(2) obtain f where f: "t2 = t1 @ f" by (rule apply_fill_ext)
    from 3(3) obtain s where s: "tr = t2 @ s" by (rule apply_stroke_ext)
    from no_save_placement [OF 3(1) [unfolded p]] no_save_fill [OF 3(2) [unfolded f]]
      no_save_stroke [OF 3(3) [unfolded s]] p f s 3(4) True
    show ?thesis by auto
  next
    case (4 xy t1 t2 t3)
    from 4(1) obtain p where p: "t1 = [] @ p" by (rule placement_ext)
    from 4(2) obtain f where f: "t2 = t1 @ f" by (rule apply_fill_ext)
    from 4(3) obtain s where s: "t3 = t2 @ s" by (rule apply_stroke_ext)
    have t3: "t3 = p @ f @ s" using p f s by simp
    obtain x0 y0 x1 y1
      where b: "textbbox E (shaped E text) (font_path st) (font_size st) = (x0, y0, x1, y1)"
      by (cases "textbbox E (shaped E text) (font_path st) (font_size st)")
    have ns: "\<not> list_ex is_save t3"
      using no_save_placement [OF 4(1) [unfolded p]] no_save_fill [OF 4(2) [unfolded f]]
        no_save_stroke [OF 4(3) [unfolded s]] by (simp add: t3)
    have po: "all_returned E [] p" using placement_ok [OF 4(1) [unfolded p] b] by simp
    note fo = apply_fill_ok [OF 4(2) [unfolded f]]
    note so = apply_stroke_ok [OF 4(3) [unfolded s]]
    have ar: "all_returned E [] t3"
      using po fo so p f by (simp add: t3 all_returned_append)
    note fa = finish_after [OF 4(4) ns ar]
    show ?thesis
    proof (cases "list_ex is_save tr")
      case False
      with fa True show ?thesis by simp
    next
      case s: True
      with fa obtain pre where pre: "before_save tr = t3 @ pre" by blast
      from fo so have "(fill_type (fill st) = Solid \<longrightarrow> list_ex is_solid_fill_pass (before_save tr)) \<and>
            (fill_type (fill st) = Gradient \<longrightarrow> list_ex is_paste (before_save tr)) \<and>
            (stroke_enabled (stroke st) \<longrightarrow> list_ex is_stroke_pass (before_save tr))"
        by (simp add: pre t3)
      with fa True show ?thesis by blast
    qed
  qed
qed

lemma example_run:
  "render example_env ''in.png'' ''out.png'' ''Hi'' example_style =
     ([Image_open ''in.png'', Image_new ''RGBA'' (200, 200), Draw_new Text_layer,
       Truetype ''font.ttf'' 48, Reshape_text ''Hi'', Textbbox ''Hi'',
       Draw_text Text_layer (80, 87) ''Hi'' (Some (RGBA 255 0 0 127)) None,
       Draw_text Text_layer (80, 87) ''Hi'' None (Some (2, RGBA 0 0 0 255)),
       Alpha_composite, Save ''out.png'', Print_rendered ''out.png''], Inr ())"
  by code_simp

lemma example_gradient_run:
  "render small_env ''in.png'' ''out.png'' ''Hi'' example_gradient_style =
     ([Image_open ''in.png'', Image_new ''RGBA'' (2, 3), Draw_new Text_layer,
       Truetype ''font.ttf'' 48, Reshape_text ''Hi'', Textbbox ''Hi'',
       Image_new ''L'' (2, 3), Draw_new Mask,
       Draw_text Mask (80, 87) ''Hi'' (Some (L 255)) None,
       Paste [[(0, 0, 0, 255), (0, 0, 0, 255)],
              [(85, 85, 85, 255), (85, 85, 85, 255)],
              [(170, 170, 170, 255), (170, 170, 170, 255)]] (0, 0),
       Alpha_composite, Rotate 90, Save ''out.png'', Print_rendered ''out.png''], Inr ())"
  by code_simp

text \<open>
  Claim C2, as amended.  In every run of \<open>render\<close>, whatever fails, each text-drawing call
  (the fill pass, the mask pass and the stroke pass) is made at the origin
  \<open>(center[0] - w // 2, center[1] - h // 2)\<close>, where \<open>w\<close> and \<open>h\<close> are the width and height
  of the measured bounding box: the box dimension is halved by floor division first and the
  half is then subtracted from the centre.
\<close>

theorem draw_origin:
  assumes "render E ip op text st = (tr, res)"
    and "textbbox E (shaped E text) (font_path st) (font_size st) = (x0, y0, x1, y1)"
    and "Draw_text l xy t ink sk \<in> set tr"
  shows "\<exists>cx cy rest. center st = cx # cy # rest \<and>
           xy = (cx - (x1 - x0) div 2, cy - (y1 - y0) div 2)"
  using render_draw_text [OF assms] by blast

text \<open>
  Claim C2 as stated subtracts half the box dimension from the centre and truncates the
  difference.  With centre \<open>(100, 100)\<close> and a box of width 41 and height 27 that would be
  \<open>(79, 86)\<close> (from \<open>79.5\<close> and \<open>86.5\<close>); the code draws both passes at \<open>(80, 87)\<close>.
\<close>

theorem draw_origin_floor_halves_first:
  "render example_env ''in.png'' ''out.png'' ''Hi'' example_style =
     ([Image_open ''in.png'', Image_new ''RGBA'' (200, 200), Draw_new Text_layer,
       Truetype ''font.ttf'' 48, Reshape_text ''Hi'', Textbbox ''Hi'',
       Draw_text Text_layer (80, 87) ''Hi'' (Some (RGBA 255 0 0 127)) None,
       Draw_text Text_layer (80, 87) ''Hi'' None (Some (2, RGBA 0 0 0 255)),
       Alpha_composite, Save ''out.png'', Print_rendered ''out.png''], Inr ()) \<and>
   center example_style = [100, 100] \<and>
   textbbox example_env (shaped example_env ''Hi'') ''font.ttf'' 48 = (0, 3, 41, 30) \<and>
   (spec_origin 100 (41 - 0), spec_origin 100 (30 - 3)) = (79, 86)"
  by code_simp

theorem draw_origin_witness:
  "render example_env ''in.png'' ''out.png'' ''Hi'' example_style =
     ([Image_open ''in.png'', Image_new ''RGBA'' (200, 200), Draw_new Text_layer,
       Truetype ''font.ttf'' 48, Reshape_text ''Hi'', Textbbox ''Hi'',
       Draw_text Text_layer (80, 87) ''Hi'' (Some (RGBA 255 0 0 127)) None,
       Draw_text Text_layer (80, 87) ''Hi'' None (Some (2, RGBA 0 0 0 255)),
       Alpha_composite, Save ''out.png'', Print_rendered ''out.png''], Inr ()) \<and>
   textbbox example_env (shaped example_env ''Hi'') (font_path example_style)
     (font_size example_style) = (0, 3, 41, 30) \<and>
   (\<exists>cx cy rest. center example_style = cx # cy # rest \<and>
      (80, 87) = (cx - (41 - 0) div 2, cy - (30 - 3) div 2))"
proof -
  have b: "textbbox example_env (shaped example_env ''Hi'') (font_path example_style)
     (font_size example_style) = (0, 3, 41, 30)" by code_simp
  have m: "Draw_text Text_layer (80, 87) ''Hi'' None (Some (2, RGBA 0 0 0 255)) \<in>
      set [Image_open ''in.png'', Image_new ''RGBA'' (200, 200), Draw_new Text_layer,
       Truetype ''font.ttf'' 48, Reshape_text ''Hi'', Textbbox ''Hi'',
       Draw_text Text_layer (80, 87) ''Hi'' (Some (RGBA 255 0 0 127)) None,
       Draw_text Text_layer (80, 87) ''Hi'' None (Some (2, RGBA 0 0 0 255)),
       Alpha_composite, Save ''out.png'', Print_rendered ''out.png'']" by simp
  from draw_origin [OF example_run b m] example_run b show ?thesis by simp
qed

text \<open>
  Claim C4.  The global opacity reaches the solid fill only.  In every run of \<open>render\<close>:
  a text-layer draw that carries a fill colour is the solid fill pass, has no stroke
  arguments, and its colour is the fill colour with alpha \<open>int(255 * opacity)\<close>; a pasted
  gradient is \<open>create_gradient\<close> of the image size, the colours and the direction, which
  converts both colours at alpha 255 and takes no opacity, so that a run with a gradient
  fill is the same for every opacity; a draw without fill colour is the stroke pass, made
  only when the stroke is enabled, with the stroke width and the stroke colour at alpha
  255; and a run that succeeds has made the fill pass and, when enabled, the stroke pass.
\<close>

theorem opacity_only_on_solid_fill:
  assumes run: "render E ip op text st = (tr, res)"
  shows "(\<forall>xy t c sk. Draw_text Text_layer xy t (Some c) sk \<in> set tr \<longrightarrow>
            fill_type (fill st) = Solid \<and> sk = None \<and>
            (\<exists>r g b. hex_to_rgba (fill_color (fill st)) 1 = Inr (r, g, b, 255) \<and>
                     c = RGBA r g b (trunc (fmul 255 (opacity st))))) \<and>
         (\<forall>g q. Paste g q \<in> set tr \<longrightarrow>
            fill_type (fill st) = Gradient \<and>
            create_gradient (image_size E ip) (fill_colors (fill st)) (fill_direction (fill st)) =
              Inr g) \<and>
         (fill_type (fill st) = Gradient \<longrightarrow>
            render E ip op text (st\<lparr>opacity := a\<rparr>) = render E ip op text st) \<and>
         (\<forall>l xy t sk. Draw_text l xy t None sk \<in> set tr \<longrightarrow>
            l = Text_layer \<and> stroke_enabled (stroke st) \<and>
            (\<exists>r g b. hex_to_rgba (Some (stroke_color (stroke st))) 1 = Inr (r, g, b, 255) \<and>
                     sk = Some (stroke_width (stroke st), RGBA r g b 255))) \<and>
         (res = Inr () \<longrightarrow>
            (fill_type (fill st) = Solid \<longrightarrow> list_ex is_solid_fill_pass tr) \<and>
            (fill_type (fill st) = Gradient \<longrightarrow> list_ex is_paste tr) \<and>
            (stroke_enabled (stroke st) \<longrightarrow> list_ex is_stroke_pass tr))"
proof -
  obtain x0 y0 x1 y1
    where b: "textbbox E (shaped E text) (font_path st) (font_size st) = (x0, y0, x1, y1)"
    by (cases "textbbox E (shaped E text) (font_path st) (font_size st)")
  have 1: "fill_type (fill st) = Solid \<and> sk = None \<and>
            (\<exists>r g b. hex_to_rgba (fill_color (fill st)) 1 = Inr (r, g, b, 255) \<and>
                     c = RGBA r g b (trunc (fmul 255 (opacity st))))"
    if "Draw_text Text_layer xy t (Some c) sk \<in> set tr" for xy t c sk
  proof -
    from render_draw_text [OF run b that]
    obtain c' where s: "fill_type (fill st) = Solid" "sk = None"
      and h: "hex_to_rgba (fill_color (fill st)) (opacity st) = Inr c'" and c: "c = to_ink c'"
      by auto
    obtain r g b' al where c': "c' = (r, g, b', al)" by (cases c')
    from hex_to_rgba_alpha [OF h [unfolded c'], of 1] s c c' show ?thesis
      by (simp add: to_ink_def full_alpha)
  qed
  have 2: "l = Text_layer \<and> stroke_enabled (stroke st) \<and>
            (\<exists>r g b. hex_to_rgba (Some (stroke_color (stroke st))) 1 = Inr (r, g, b, 255) \<and>
                     sk = Some (stroke_width (stroke st), RGBA r g b 255))"
    if "Draw_text l xy t None sk \<in> set tr" for l xy t sk
  proof -
    from render_draw_text [OF run b that]
    obtain c' where s: "l = Text_layer" "stroke_enabled (stroke st)"
      and h: "hex_to_rgba (Some (stroke_color (stroke st))) 1 = Inr c'"
      and c: "sk = Some (stroke_width (stroke st), to_ink c')"
      by (cases l) auto
    obtain r g b' al where c': "c' = (r, g, b', al)" by (cases c')
    from hex_to_rgba_alpha [OF h [unfolded c'], of 1] h s c c' show ?thesis
      by (simp add: to_ink_def full_alpha)
  qed
  have 3: "render E ip op text (st\<lparr>opacity := a\<rparr>) = render E ip op text st"
    if "fill_type (fill st) = Gradient"
  proof -
    have "apply_stroke E xy t (st\<lparr>opacity := a\<rparr>) = apply_stroke E xy t st" for xy t
      by (simp add: apply_stroke_def)
    moreover have "apply_fill E sz xy t (st\<lparr>opacity := a\<rparr>) = apply_fill E sz xy t st"
      for sz xy t
      using that by (simp add: apply_fill_def)
    moreover have "placement E ip text (st\<lparr>opacity := a\<rparr>) = placement E ip text st"
      by (simp add: placement_def)
    moreover have "finish E op (st\<lparr>opacity := a\<rparr>) = finish E op st"
      by (simp add: finish_def)
    ultimately show ?thesis by (simp add: render_stages)
  qed
  have 4: "(fill_type (fill st) = Solid \<longrightarrow> list_ex is_solid_fill_pass tr) \<and>
            (fill_type (fill st) = Gradient \<longrightarrow> list_ex is_paste tr) \<and>
            (stroke_enabled (stroke st) \<longrightarrow> list_ex is_stroke_pass tr)"
    if "res = Inr ()"
  proof -
    have "set (before_save tr) \<subseteq> set tr" by (auto simp: before_save_def dest: set_takeWhileD)
    then have "list_ex P (before_save tr) \<Longrightarrow> list_ex P tr" for P
      by (auto simp: list_ex_iff)
    with output_shape [OF run] that show ?thesis by blast
  qed
  from 1 2 3 4 render_paste [OF run] show ?thesis by blast
qed

theorem opacity_only_on_solid_fill_witness:
  "render example_env ''in.png'' ''out.png'' ''Hi'' example_style =
     ([Image_open ''in.png'', Image_new ''RGBA'' (200, 200), Draw_new Text_layer,
       Truetype ''font.ttf'' 48, Reshape_text ''Hi'', Textbbox ''Hi'',
       Draw_text Text_layer (80, 87) ''Hi'' (Some (RGBA 255 0 0 127)) None,
       Draw_text Text_layer (80, 87) ''Hi'' None (Some (2, RGBA 0 0 0 255)),
       Alpha_composite, Save ''out.png'', Print_rendered ''out.png''], Inr ()) \<and>
   opacity example_style = 1 / 2 \<and>
   fill_type (fill example_style) = Solid \<and>
   (\<exists>r g b. hex_to_rgba (fill_color (fill example_style)) 1 = Inr (r, g, b, 255) \<and>
            RGBA 255 0 0 127 = RGBA r g b (trunc (fmul 255 (opacity example_style)))) \<and>
   stroke_enabled (stroke example_style) \<and>
   (\<exists>r g b. hex_to_rgba (Some (stroke_color (stroke example_style))) 1 = Inr (r, g, b, 255) \<and>
            Some (2, RGBA 0 0 0 255) = Some (stroke_width (stroke example_style), RGBA r g b 255)) \<and>
   fill_type (fill example_gradient_style) = Gradient \<and>
   render small_env ''in.png'' ''out.png'' ''Hi'' (example_gradient_style\<lparr>opacity := 1 / 4\<rparr>) =
     render small_env ''in.png'' ''out.png'' ''Hi'' example_gradient_style \<and>
   create_gradient (image_size small_env ''in.png'') (fill_colors (fill example_gradient_style))
       (fill_direction (fill example_gradient_style)) =
     Inr [[(0, 0, 0, 255), (0, 0, 0, 255)],
          [(85, 85, 85, 255), (85, 85, 85, 255)],
          [(170, 170, 170, 255), (170, 170, 170, 255)]]"
proof -
  have o: "opacity example_style = 1 / 2" by (simp add: example_style_def)
  have g: "fill_type (fill example_gradient_style) = Gradient"
    by (simp add: example_gradient_style_def example_style_def)
  note s = opacity_only_on_solid_fill [OF example_run, of "0"]
  note t = opacity_only_on_solid_fill [OF example_gradient_run, of "1 / 4"]
  from s have 1: "fill_type (fill example_style) = Solid \<and>
     (\<exists>r g b. hex_to_rgba (fill_color (fill example_style)) 1 = Inr (r, g, b, 255) \<and>
            RGBA 255 0 0 127 = RGBA r g b (trunc (fmul 255 (opacity example_style))))"
    by simp
  from s have 2: "stroke_enabled (stroke example_style) \<and>
     (\<exists>r g b. hex_to_rgba (Some (stroke_color (stroke example_style))) 1 = Inr (r, g, b, 255) \<and>
            Some (2, RGBA 0 0 0 255) = Some (stroke_width (stroke example_style), RGBA r g b 255))"
    by simp
  from t g have 3: "render small_env ''in.png'' ''out.png'' ''Hi'' (example_gradient_style\<lparr>opacity := 1 / 4\<rparr>) =
     render small_env ''in.png'' ''out.png'' ''Hi'' example_gradient_style"
    by blast
  from t have 4: "create_gradient (image_size small_env ''in.png'') (fill_colors (fill example_gradient_style))
       (fill_direction (fill example_gradient_style)) =
     Inr [[(0, 0, 0, 255), (0, 0, 0, 255)],
          [(85, 85, 85, 255), (85, 85, 85, 255)],
          [(170, 170, 170, 255), (170, 170, 170, 255)]]"
    by simp
  from example_run o g 1 2 3 4 show ?thesis by blast
qed

text \<open>
  Claim C8 as stated has no output written in any failing run.  The success message is
  printed after \<open>save\<close> has returned, so a run in which that \<open>print\<close> raises fails with
  the output already saved.
\<close>

theorem failed_run_with_output_saved:
  "render print_fails_env ''in.png'' ''out.png'' ''Hi'' example_style =
     ([Image_open ''in.png'', Image_new ''RGBA'' (200, 200), Draw_new Text_layer,
       Truetype ''font.ttf'' 48, Reshape_text ''Hi'', Textbbox ''Hi'',
       Draw_text Text_layer (80, 87) ''Hi'' (Some (RGBA 255 0 0 127)) None,
       Draw_text Text_layer (80, 87) ''Hi'' None (Some (2, RGBA 0 0 0 255)),
       Alpha_composite, Save ''out.png'', Print_rendered ''out.png''], Inl (External 0)) \<and>
   raises print_fails_env
     [Image_open ''in.png'', Image_new ''RGBA'' (200, 200), Draw_new Text_layer,
       Truetype ''font.ttf'' 48, Reshape_text ''Hi'', Textbbox ''Hi'',
       Draw_text Text_layer (80, 87) ''Hi'' (Some (RGBA 255 0 0 127)) None,
       Draw_text Text_layer (80, 87) ''Hi'' None (Some (2, RGBA 0 0 0 255)),
       Alpha_composite] (Save ''out.png'') = None"
  by code_simp

text \<open>
  Claim C8, as amended.  When the font path does not exist, \<open>render\<close> raises
  \<open>FileNotFoundError\<close> having made no call at all.  In every run, \<open>save\<close> is called at
  most once and only after every earlier call has returned: the fill pass (or the gradient
  paste), the stroke pass when the stroke is enabled, the compositing and, for a non-zero
  rotation, the rotation all come before it, and nothing but the final message comes after
  it.  So a run that fails at any stage before the call to \<open>save\<close> contains no \<open>save\<close>;
  a failing run that contains one failed in \<open>save\<close> itself or in printing the message
  after \<open>save\<close> returned.  A run that succeeds has saved.
\<close>

theorem output_written_last:
  assumes run: "render E ip op text st = (tr, res)"
  shows "(\<not> path_exists E (font_path st) \<longrightarrow> tr = [] \<and> res = Inl FileNotFoundError) \<and>
         (list_ex is_save tr \<longrightarrow>
            all_returned E [] (before_save tr) \<and>
            (fill_type (fill st) = Solid \<longrightarrow> list_ex is_solid_fill_pass (before_save tr)) \<and>
            (fill_type (fill st) = Gradient \<longrightarrow> list_ex is_paste (before_save tr)) \<and>
            (stroke_enabled (stroke st) \<longrightarrow> list_ex is_stroke_pass (before_save tr)) \<and>
            Alpha_composite \<in> set (before_save tr) \<and>
            (rotation st \<noteq> 0 \<longrightarrow> Rotate (rotation st) \<in> set (before_save tr)) \<and>
            (tr = before_save tr @ [Save op] \<or>
             tr = before_save tr @ [Save op, Print_rendered op])) \<and>
         (\<forall>e. res = Inl e \<longrightarrow>
            \<not> list_ex is_save tr \<or>
            (tr = before_save tr @ [Save op] \<and> raises E (before_save tr) (Save op) = Some e) \<or>
            (tr = before_save tr @ [Save op, Print_rendered op] \<and>
             raises E (before_save tr @ [Save op]) (Print_rendered op) = Some e)) \<and>
         (res = Inr () \<longrightarrow> list_ex is_save tr)"
  using output_shape [OF run] .

theorem output_written_last_witness:
  "render small_env ''in.png'' ''out.png'' ''Hi'' example_gradient_style =
     ([Image_open ''in.png'', Image_new ''RGBA'' (2, 3), Draw_new Text_layer,
       Truetype ''font.ttf'' 48, Reshape_text ''Hi'', Textbbox ''Hi'',
       Image_new ''L'' (2, 3), Draw_new Mask,
       Draw_text Mask (80, 87) ''Hi'' (Some (L 255)) None,
       Paste [[(0, 0, 0, 255), (0, 0, 0, 255)],
              [(85, 85, 85, 255), (85, 85, 85, 255)],
              [(170, 170, 170, 255), (170, 170, 170, 255)]] (0, 0),
       Alpha_composite, Rotate 90, Save ''out.png'', Print_rendered ''out.png''], Inr ()) \<and>
   fill_type (fill example_gradient_style) = Gradient \<and>
   rotation example_gradient_style \<noteq> 0 \<and>
   before_save
     [Image_open ''in.png'', Image_new ''RGBA'' (2, 3), Draw_new Text_layer,
       Truetype ''font.ttf'' 48, Reshape_text ''Hi'', Textbbox ''Hi'',
       Image_new ''L'' (2, 3), Draw_new Mask,
       Draw_text Mask (80, 87) ''Hi'' (Some (L 255)) None,
       Paste [[(0, 0, 0, 255), (0, 0, 0, 255)],
              [(85, 85, 85, 255), (85, 85, 85, 255)],
              [(170, 170, 170, 255), (170, 170, 170, 255)]] (0, 0),
       Alpha_composite, Rotate 90, Save ''out.png'', Print_rendered ''out.png''] =
     [Image_open ''in.png'', Image_new ''RGBA'' (2, 3), Draw_new Text_layer,
       Truetype ''font.ttf'' 48, Reshape_text ''Hi'', Textbbox ''Hi'',
       Image_new ''L'' (2, 3), Draw_new Mask,
       Draw_text Mask (80, 87) ''Hi'' (Some (L 255)) None,
       Paste [[(0, 0, 0, 255), (0, 0, 0, 255)],
              [(85, 85, 85, 255), (85, 85, 85, 255)],
              [(170, 170, 170, 255), (170, 170, 170, 255)]] (0, 0),
       Alpha_composite, Rotate 90] \<and>
   \<not> path_exists (example_env\<lparr>path_exists := (\<lambda>p. False)\<rparr>) (font_path example_style) \<and>
   render (example_env\<lparr>path_exists := (\<lambda>p. False)\<rparr>) ''in.png'' ''out.png'' ''Hi'' example_style =
     ([], Inl FileNotFoundError)"
proof -
  let ?E = "example_env\<lparr>path_exists := (\<lambda>p. False)\<rparr>"
  have g: "fill_type (fill example_gradient_style) = Gradient \<and>
      rotation example_gradient_style \<noteq> 0"
    by (simp add: example_gradient_style_def example_style_def)
  have b: "before_save
     [Image_open ''in.png'', Image_new ''RGBA'' (2, 3), Draw_new Text_layer,
       Truetype ''font.ttf'' 48, Reshape_text ''Hi'', Textbbox ''Hi'',
       Image_new ''L'' (2, 3), Draw_new Mask,
       Draw_text Mask (80, 87) ''Hi'' (Some (L 255)) None,
       Paste [[(0, 0, 0, 255), (0, 0, 0, 255)],
              [(85, 85, 85, 255), (85, 85, 85, 255)],
              [(170, 170, 170, 255), (170, 170, 170, 255)]] (0, 0),
       Alpha_composite, Rotate 90, Save ''out.png'', Print_rendered ''out.png''] =
     [Image_open ''in.png'', Image_new ''RGBA'' (2, 3), Draw_new Text_layer,
       Truetype ''font.ttf'' 48, Reshape_text ''Hi'', Textbbox ''Hi'',
       Image_new ''L'' (2, 3), Draw_new Mask,
       Draw_text Mask (80, 87) ''Hi'' (Some (L 255)) None,
       Paste [[(0, 0, 0, 255), (0, 0, 0, 255)],
              [(85, 85, 85, 255), (85, 85, 85, 255)],
              [(170, 170, 170, 255), (170, 170, 170, 255)]] (0, 0),
       Alpha_composite, Rotate 90]"
    by (simp add: before_save_def)
  have n: "\<not> path_exists ?E (font_path example_style)" by simp
  obtain tr res where r: "render ?E ''in.png'' ''out.png'' ''Hi'' example_style = (tr, res)"
    by (cases "render ?E ''in.png'' ''out.png'' ''Hi'' example_style")
  from output_written_last [OF r] n have "tr = [] \<and> res = Inl FileNotFoundError" by blast
  with r have f: "render ?E ''in.png'' ''out.png'' ''Hi'' example_style = ([], Inl FileNotFoundError)"
    by simp
  from output_written_last [OF example_gradient_run] example_gradient_run g b n f
  show ?thesis by blast
qed

lemma render_short_center:
  assumes p: "path_exists E (font_path st)"
    and r: "all_returned E []
       [Image_open ip, Image_new ''RGBA'' (image_size E ip), Draw_new Text_layer,
        Truetype (font_path st) (font_size st), Reshape_text msg, Textbbox (shaped E msg)]"
    and c: "length (center st) < 2"
  shows "render E ip op msg st =
     ([Image_open ip, Image_new ''RGBA'' (image_size E ip), Draw_new Text_layer,
       Truetype (font_path st) (font_size st), Reshape_text msg, Textbbox (shaped E msg)],
      Inl IndexError)"
proof -
  obtain x0 y0 x1 y1
    where b: "textbbox E (shaped E msg) (font_path st) (font_size st) = (x0, y0, x1, y1)"
    by (cases "textbbox E (shaped E msg) (font_path st) (font_size st)")
  from c have "center st = [] \<or> (\<exists>x. center st = [x])"
    by (cases "center st") (auto simp: length_Suc_conv)
  then show ?thesis
    using p r b by (auto simp: render_def run_simps)
qed

text \<open>
  Claim C10.  Validation does not look at the length of \<open>center\<close> or of a shadow offset:
  replacing either by any list of integers leaves the validation result unchanged, and the
  example style validates with every \<open>center\<close>.  When the font exists and the calls up
  to the measurement of the text return, a style whose \<open>center\<close> has fewer than two
  elements makes \<open>render\<close> raise \<open>IndexError\<close> right after the measurement, before
  anything is drawn.
\<close>

theorem center_length_unchecked:
  "validate_StyleModel (st\<lparr>center := c\<rparr>) = validate_StyleModel st \<and>
   validate_StyleModel (st\<lparr>shadow := (shadow st)\<lparr>shadow_offset := v\<rparr>\<rparr>) = validate_StyleModel st \<and>
   validate_StyleModel (st\<lparr>outer_glow := (outer_glow st)\<lparr>shadow_offset := v\<rparr>\<rparr>) =
     validate_StyleModel st \<and>
   validate_StyleModel (st\<lparr>inner_shadow := (inner_shadow st)\<lparr>shadow_offset := v\<rparr>\<rparr>) =
     validate_StyleModel st \<and>
   StyleModel_init (example_style\<lparr>center := c\<rparr>) = Inr (example_style\<lparr>center := c\<rparr>) \<and>
   (path_exists E (font_path st) \<and>
    all_returned E []
       [Image_open ip, Image_new ''RGBA'' (image_size E ip), Draw_new Text_layer,
        Truetype (font_path st) (font_size st), Reshape_text msg, Textbbox (shaped E msg)] \<and>
    length (center st) < 2 \<longrightarrow>
    render E ip op msg st =
     ([Image_open ip, Image_new ''RGBA'' (image_size E ip), Draw_new Text_layer,
       Truetype (font_path st) (font_size st), Reshape_text msg, Textbbox (shaped E msg)],
      Inl IndexError))"
proof -
  have 1: "validate_StyleModel (st\<lparr>center := c\<rparr>) = validate_StyleModel st" for st
    by (simp add: validate_StyleModel_def)
  have 2: "validate_ShadowModel (s\<lparr>shadow_offset := v\<rparr>) = validate_ShadowModel s" for s
    by (simp add: validate_ShadowModel_def)
  have 3: "StyleModel_init (example_style\<lparr>center := c\<rparr>) = Inr (example_style\<lparr>center := c\<rparr>)"
    by (simp add: StyleModel_init_def 1 example_style_valid)
  show ?thesis
    using render_short_center [of E st ip msg op]
    by (simp add: 1 3) (simp add: validate_StyleModel_def 2)
qed

theorem center_length_unchecked_witness:
  "StyleModel_init (example_style\<lparr>center := [100]\<rparr>) = Inr (example_style\<lparr>center := [100]\<rparr>) \<and>
   path_exists example_env (font_path (example_style\<lparr>center := [100]\<rparr>)) \<and>
   length (center (example_style\<lparr>center := [100]\<rparr>)) < 2 \<and>
   render example_env ''in.png'' ''out.png'' ''Hi'' (example_style\<lparr>center := [100]\<rparr>) =
     ([Image_open ''in.png'', Image_new ''RGBA'' (200, 200), Draw_new Text_layer,
       Truetype ''font.ttf'' 48, Reshape_text ''Hi'', Textbbox ''Hi''], Inl IndexError)"
proof -
  let ?st = "example_style\<lparr>center := [100]\<rparr>"
  have p: "path_exists example_env (font_path ?st)" by (simp add: example_env_def)
  have r: "all_returned example_env []
       [Image_open ''in.png'', Image_new ''RGBA'' (image_size example_env ''in.png''),
        Draw_new Text_layer, Truetype (font_path ?st) (font_size ?st), Reshape_text ''Hi'',
        Textbbox (shaped example_env ''Hi'')]"
    by (simp add: example_env_def)
  have c: "length (center ?st) < 2" by simp
  have v: "image_size example_env ''in.png'' = (200, 200)" "font_path ?st = ''font.ttf''"
    "font_size ?st = 48" "shaped example_env ''Hi'' = ''Hi''"
    by (simp_all add: example_env_def example_style_def)
  from center_length_unchecked [where st = ?st and c = "[100]" and E = example_env
      and ip = "''in.png''" and msg = "''Hi''" and op = "''out.png''"]
    p r c
  show ?thesis unfolding v by simp
qed

lemma render_reaches_fill:
  assumes p: "path_exists E (font_path st)"
    and r: "\<forall>tr c. raises E tr c = None"
    and c: "center st = cx # cy # rest"
    and b: "textbbox E (shaped E msg) (font_path st) (font_size st) = (x0, y0, x1, y1)"
  shows "placement E ip msg st [] =
     ([Image_open ip, Image_new ''RGBA'' (image_size E ip), Draw_new Text_layer,
       Truetype (font_path st) (font_size st), Reshape_text msg, Textbbox (shaped E msg)],
      Inr (cx - (x1 - x0) div 2, cy - (y1 - y0) div 2))"
  using r b c by (simp add: placement_def run_simps ret_def)

lemma render_fill_error:
  assumes p: "path_exists E (font_path st)"
    and r: "\<forall>tr c. raises E tr c = None"
    and c: "2 \<le> length (center st)"
    and f: "\<And>xy tr. \<exists>tr'. apply_fill E (image_size E ip) xy (shaped E msg) st tr = (tr', Inl e)"
  shows "snd (render E ip op msg st) = Inl e"
proof -
  obtain x0 y0 x1 y1
    where b: "textbbox E (shaped E msg) (font_path st) (font_size st) = (x0, y0, x1, y1)"
    by (cases "textbbox E (shaped E msg) (font_path st) (font_size st)")
  from c obtain cx cy rest where cs: "center st = cx # cy # rest"
    by (cases "center st"; cases "tl (center st)") auto
  note pl = render_reaches_fill [OF p r cs b, of ip]
  from f obtain tr' where
    "apply_fill E (image_size E ip) (cx - (x1 - x0) div 2, cy - (y1 - y0) div 2) (shaped E msg) st
       [Image_open ip, Image_new ''RGBA'' (image_size E ip), Draw_new Text_layer,
       Truetype (font_path st) (font_size st), Reshape_text msg, Textbbox (shaped E msg)] =
     (tr', Inl e)" by blast
  with p pl show ?thesis by (simp add: render_stages and_then_def)
qed

text \<open>
  Claim C5, as amended.  Validation does not check the fill variant against its fields:
  the result does not depend on \<open>type\<close> or \<open>direction\<close>, and a fill with no \<open>color\<close> and
  no \<open>colors\<close> passes for either type.  The missing field is met at render time: when the
  font exists, every call returns and \<open>center\<close> has two elements, a solid fill without
  \<open>color\<close> makes \<open>render\<close> raise \<open>AttributeError\<close>, a gradient fill without \<open>colors\<close>
  \<open>TypeError\<close>, and a gradient fill with a single well-formed colour \<open>IndexError\<close>.  A
  gradient without \<open>direction\<close> is synthesised as a horizontal one, and colours after the
  second are ignored.
\<close>

theorem fill_fields_checked_at_render:
  "validate_FillModel (f\<lparr>fill_type := t, fill_direction := d\<rparr>) = validate_FillModel f \<and>
   validate_FillModel
     \<lparr>fill_type = t, fill_color = None, fill_colors = None, fill_direction = d\<rparr> = [] \<and>
   create_gradient sz cs None = create_gradient sz cs (Some Horizontal) \<and>
   create_gradient sz (Some (s1 # s2 # others)) d = create_gradient sz (Some [s1, s2]) d \<and>
   (path_exists E (font_path st) \<and> (\<forall>tr c. raises E tr c = None) \<and> 2 \<le> length (center st) \<longrightarrow>
      (fill_type (fill st) = Solid \<and> fill_color (fill st) = None \<longrightarrow>
         snd (render E ip op msg st) = Inl AttributeError) \<and>
      (fill_type (fill st) = Gradient \<and> fill_colors (fill st) = None \<longrightarrow>
         snd (render E ip op msg st) = Inl TypeError) \<and>
      (fill_type (fill st) = Gradient \<and> fill_colors (fill st) = Some [s1] \<and> is_hex_color s1 \<longrightarrow>
         snd (render E ip op msg st) = Inl IndexError))"
proof -
  have 1: "validate_FillModel (f\<lparr>fill_type := t, fill_direction := d\<rparr>) = validate_FillModel f"
    by (simp add: validate_FillModel_def)
  have 2: "validate_FillModel
     \<lparr>fill_type = t, fill_color = None, fill_colors = None, fill_direction = d\<rparr> = []"
    by (simp add: validate_FillModel_def FillModel_validate_color_def
        FillModel_validate_colors_def at_field_def)
  have 3: "create_gradient sz cs None = create_gradient sz cs (Some Horizontal)"
  proof -
    have "gradient_step w h None c1 c2 = gradient_step w h (Some Horizontal) c1 c2"
      for w h c1 c2
      by (intro ext) (simp add: gradient_step_def)
    then show ?thesis
      by (simp add: create_gradient_def split: prod.split option.split sum.split)
  qed
  have 4: "create_gradient sz (Some (s1 # s2 # others)) d = create_gradient sz (Some [s1, s2]) d"
    by (simp add: create_gradient_def subscript_def split: prod.split sum.split)
  have 5: "snd (render E ip op msg st) = Inl AttributeError"
    if "path_exists E (font_path st)" "\<forall>tr c. raises E tr c = None" "2 \<le> length (center st)"
      "fill_type (fill st) = Solid" "fill_color (fill st) = None"
    using that(1-3)
    by (rule render_fill_error) (simp add: apply_fill_def run_simps hex_to_rgba_def that)
  have 6: "snd (render E ip op msg st) = Inl TypeError"
    if "path_exists E (font_path st)" "\<forall>tr c. raises E tr c = None" "2 \<le> length (center st)"
      "fill_type (fill st) = Gradient" "fill_colors (fill st) = None"
    using that(1-3)
    by (rule render_fill_error) (simp add: apply_fill_def run_simps create_gradient_def that split: prod.splits)
  have 7: "snd (render E ip op msg st) = Inl IndexError"
    if "path_exists E (font_path st)" "\<forall>tr c. raises E tr c = None" "2 \<le> length (center st)"
      "fill_type (fill st) = Gradient" "fill_colors (fill st) = Some [s1]" "is_hex_color s1"
    using that(1-3)
    by (rule render_fill_error)
       (simp add: apply_fill_def run_simps create_gradient_def that subscript_def
          hex_to_rgba_rgba_of split: prod.splits)
  from 1 2 3 4 5 6 7 show ?thesis by blast
qed

text \<open>
  Claim C5 as stated makes a gradient fill without two colours and a direction fail
  validation.  A gradient fill that carries neither produces no validation error, and a
  style with that fill is accepted.
\<close>

theorem gradient_without_fields_validates:
  "\<not> fill_variant_consistent
       \<lparr>fill_type = Gradient, fill_color = None, fill_colors = None, fill_direction = None\<rparr> \<and>
   validate_FillModel
     \<lparr>fill_type = Gradient, fill_color = None, fill_colors = None, fill_direction = None\<rparr> = [] \<and>
   StyleModel_init
     (example_style\<lparr>fill := \<lparr>fill_type = Gradient, fill_color = None, fill_colors = None,
                               fill_direction = None\<rparr>\<rparr>) =
   Inr (example_style\<lparr>fill := \<lparr>fill_type = Gradient, fill_color = None, fill_colors = None,
                               fill_direction = None\<rparr>\<rparr>)"
  by code_simp

theorem fill_fields_checked_at_render_witness:
  "path_exists example_env (font_path example_style) \<and>
   (\<forall>tr c. raises example_env tr c = None) \<and>
   2 \<le> length (center example_style) \<and>
   snd (render example_env ''in.png'' ''out.png'' ''Hi''
          (example_style\<lparr>fill := \<lparr>fill_type = Solid, fill_color = None, fill_colors = None,
                                    fill_direction = None\<rparr>\<rparr>)) = Inl AttributeError \<and>
   snd (render example_env ''in.png'' ''out.png'' ''Hi''
          (example_style\<lparr>fill := \<lparr>fill_type = Gradient, fill_color = None, fill_colors = None,
                                    fill_direction = None\<rparr>\<rparr>)) = Inl TypeError \<and>
   snd (render example_env ''in.png'' ''out.png'' ''Hi''
          (example_style\<lparr>fill := \<lparr>fill_type = Gradient, fill_color = None,
                                    fill_colors = Some [''#000000''],
                                    fill_direction = Some Vertical\<rparr>\<rparr>)) = Inl IndexError"
proof -
  let ?a = "example_style\<lparr>fill := \<lparr>fill_type = Solid, fill_color = None, fill_colors = None,
                                    fill_direction = None\<rparr>\<rparr>"
  let ?b = "example_style\<lparr>fill := \<lparr>fill_type = Gradient, fill_color = None, fill_colors = None,
                                    fill_direction = None\<rparr>\<rparr>"
  let ?c = "example_style\<lparr>fill := \<lparr>fill_type = Gradient, fill_color = None,
                                    fill_colors = Some [''#000000''],
                                    fill_direction = Some Vertical\<rparr>\<rparr>"
  have p: "path_exists example_env (font_path example_style)" by (simp add: example_env_def)
  have r: "\<forall>tr c. raises example_env tr c = None" by (simp add: example_env_def)
  have l: "2 \<le> length (center example_style)" by (simp add: example_style_def)
  have h: "is_hex_color ''#000000''" by code_simp
  from fill_fields_checked_at_render [where E = example_env and st = ?a and ip = "''in.png''"
      and op = "''out.png''" and msg = "''Hi''"] p r l
  have a: "snd (render example_env ''in.png'' ''out.png'' ''Hi'' ?a) = Inl AttributeError"
    by simp
  from fill_fields_checked_at_render [where E = example_env and st = ?b and ip = "''in.png''"
      and op = "''out.png''" and msg = "''Hi''"] p r l
  have b: "snd (render example_env ''in.png'' ''out.png'' ''Hi'' ?b) = Inl TypeError"
    by simp
  from fill_fields_checked_at_render [where E = example_env and st = ?c and ip = "''in.png''"
      and op = "''out.png''" and msg = "''Hi''" and ?s1.0 = "''#000000''"] p r l h
  have c: "snd (render example_env ''in.png'' ''out.png'' ''Hi'' ?c) = Inl IndexError"
    by simp
  from p r l a b c show ?thesis by blast
qed

end
